theory Spec2Isabelle
  imports Main
begin

section \<open>ts-ply: the PLY reader and writer\<close>

text \<open>
  A shallow embedding of the class \<open>PlyData\<close> and of the property classes it uses.

  Conventions of the model.
  \<^item> A byte buffer and a string are both a \<open>string\<close> (a list of 8-bit characters):
    \<open>Buffer.toString()\<close> is taken bytewise, so the model is exact on ASCII text, and a
    byte above 127 is an ordinary character that is not white space.
  \<^item> A JavaScript number is a \<open>number\<close>: an integer, \<open>NaN\<close>, or another double.
    Integers are exact (the model has no rounding above \<open>2^53\<close>); the doubles that are
    not integers are values of an abstract type \<open>'f\<close>, produced and printed by the
    built-in functions of the language, which the model takes as a parameter
    (\<open>builtins\<close>). The text of an integer of magnitude \<open>10^21\<close> or more, which the
    language prints in exponent notation, is taken from the same parameter. Numbers
    are compared as the language compares them with \<open>===\<close>: the model has one zero,
    where the language has \<open>0\<close> and \<open>-0\<close>, equal to each other and both printed \<open>0\<close>.
  \<^item> A number that the code only ever computes from \<open>parseInt\<close>, an unsigned read and
    \<open>length\<close> (an element count, a list count, an entry of \<open>flattenedIndexStart\<close>) is an
    \<open>int option\<close>, with \<open>None\<close> for \<open>NaN\<close>.
  \<^item> The objects are mutated in place by the code; the model passes them and returns
    them updated. A function that can throw returns the state reached at the throw and
    \<open>None\<close> (or \<open>False\<close>) in place of its result.
\<close>

subsection \<open>Numbers and the built-in functions\<close>

datatype 'f number = JInt int | JNaN | JDbl 'f

record 'f builtins =
  parseFloat :: "string \<Rightarrow> 'f number"
  readFloatLE :: "string \<Rightarrow> 'f number"
  readFloatBE :: "string \<Rightarrow> 'f number"
  readDoubleLE :: "string \<Rightarrow> 'f number"
  readDoubleBE :: "string \<Rightarrow> 'f number"
  doubleToString :: "'f \<Rightarrow> string"
  integerToString :: "int \<Rightarrow> string"

text \<open>The result of \<open>parseInt\<close> and of integer arithmetic, as a number.\<close>

fun intNumber :: "int option \<Rightarrow> 'f number" where
  "intNumber None = JNaN"
| "intNumber (Some n) = JInt n"

text \<open>\<open>a + b\<close> and \<open>a - b\<close> on integers or \<open>NaN\<close>.\<close>

fun numAdd :: "int option \<Rightarrow> int option \<Rightarrow> int option" where
  "numAdd (Some a) (Some b) = Some (a + b)"
| "numAdd _ _ = None"


text \<open>The number of rounds of \<open>for (let i = 0; i < count; i++)\<close>: none when \<open>count\<close> is
  \<open>NaN\<close>, zero or negative.\<close>

fun loopCount :: "int option \<Rightarrow> nat" where
  "loopCount None = 0"
| "loopCount (Some c) = nat c"

subsection \<open>Strings\<close>

definition isWhiteSpace :: "char \<Rightarrow> bool" where
  "isWhiteSpace c \<longleftrightarrow> (of_char c :: nat) \<in> {9, 10, 11, 12, 13, 32}"

definition trim :: "string \<Rightarrow> string" where
  "trim s = rev (dropWhile isWhiteSpace (rev (dropWhile isWhiteSpace s)))"

definition startsWith :: "string \<Rightarrow> string \<Rightarrow> bool" where
  "startsWith s p \<longleftrightarrow> take (length p) s = p"

definition substring :: "string \<Rightarrow> nat \<Rightarrow> string" where
  "substring s k = drop k s"

text \<open>\<open>s.split(sep)\<close> for a separator that matches single characters: the pieces between
  the separators, empty pieces kept; never the empty list.\<close>

fun split :: "(char \<Rightarrow> bool) \<Rightarrow> string \<Rightarrow> string list" where
  "split sep [] = [[]]"
| "split sep (c # cs) =
     (if sep c then [] # split sep cs
      else (case split sep cs of [] \<Rightarrow> [[c]] | piece # pieces \<Rightarrow> (c # piece) # pieces))"

text \<open>\<open>DELIMITER = /[ \t]/gm\<close>.\<close>

definition DELIMITER :: "char \<Rightarrow> bool" where
  "DELIMITER c \<longleftrightarrow> c = CHR '' '' \<or> c = CHR 0x09"

definition newline :: "char \<Rightarrow> bool" where
  "newline c \<longleftrightarrow> c = CHR 0x0A"

text \<open>\<open>tokens[i]\<close> as \<open>parseInt\<close> and \<open>parseFloat\<close> see it: they convert their argument
  to a string, so a token past the end of the array (\<open>undefined\<close>) reads as the text
  \<open>undefined\<close>.\<close>

definition tokenAt :: "string list \<Rightarrow> nat \<Rightarrow> string" where
  "tokenAt tokens i = (if i < length tokens then tokens ! i else ''undefined'')"

text \<open>\<open>parseInt(s)\<close> without a radix: leading white space, a sign, an optional \<open>0x\<close>, then
  the longest run of digits; \<open>NaN\<close> when that run is empty.\<close>

definition digitValue :: "char \<Rightarrow> nat" where
  "digitValue c =
     (let k = (of_char c :: nat) in
      if 48 \<le> k \<and> k \<le> 57 then k - 48
      else if 97 \<le> k \<and> k \<le> 122 then k - 87
      else if 65 \<le> k \<and> k \<le> 90 then k - 55
      else 36)"

definition digitsValue :: "nat \<Rightarrow> string \<Rightarrow> nat" where
  "digitsValue radix z = foldl (\<lambda>a c. a * radix + digitValue c) 0 z"

definition parseInt :: "string \<Rightarrow> int option" where
  "parseInt s =
     (let s1 = dropWhile isWhiteSpace s;
          negative = (take 1 s1 = ''-'');
          s2 = (if take 1 s1 = ''+'' \<or> take 1 s1 = ''-'' then drop 1 s1 else s1);
          hex = (take 2 s2 = ''0x'' \<or> take 2 s2 = ''0X'');
          s3 = (if hex then drop 2 s2 else s2);
          radix = (if hex then 16 else 10);
          z = takeWhile (\<lambda>c. digitValue c < radix) s3
      in if z = [] then None
         else Some ((if negative then - 1 else 1) * int (digitsValue radix z)))"

text \<open>A number in a template literal, \<open>`${n}`\<close>.\<close>

fun natToString :: "nat \<Rightarrow> string" where
  "natToString n =
     (if n < 10 then [char_of (48 + n)]
      else natToString (n div 10) @ [char_of (48 + n mod 10)])"

declare natToString.simps [simp del]

text \<open>An integer in decimal digits, and \<open>NaN\<close>.\<close>

definition decimalText :: "int option \<Rightarrow> string" where
  "decimalText v =
     (case v of None \<Rightarrow> ''NaN''
      | Some n \<Rightarrow> if n < 0 then CHR ''-'' # natToString (nat (- n)) else natToString (nat n))"

text \<open>The language prints an integer in decimal digits when its magnitude is below
  \<open>10^21\<close>. From there on it prints the exponent notation of the double (\<open>1e+21\<close>), a
  text that the model takes from the built-in functions.\<close>

fun plainCount :: "int option \<Rightarrow> bool" where
  "plainCount None = True"
| "plainCount (Some n) = (\<bar>n\<bar> < 10 ^ 21)"

definition intToString :: "'f builtins \<Rightarrow> int option \<Rightarrow> string" where
  "intToString js v =
     (case v of None \<Rightarrow> decimalText None
      | Some n \<Rightarrow> if plainCount (Some n) then decimalText (Some n) else integerToString js n)"


subsection \<open>The property types\<close>

datatype PropertyType =
  PT_char | PT_uchar | PT_short | PT_ushort | PT_int | PT_uint | PT_float | PT_double


text \<open>\<open>Property.parseValue\<close>. Its \<open>default\<close> branch needs a type outside the eight.\<close>

fun parseValue :: "'f builtins \<Rightarrow> string \<Rightarrow> PropertyType \<Rightarrow> 'f number" where
  "parseValue js token PT_char = intNumber (parseInt token)"
| "parseValue js token PT_uchar = intNumber (parseInt token)"
| "parseValue js token PT_short = intNumber (parseInt token)"
| "parseValue js token PT_ushort = intNumber (parseInt token)"
| "parseValue js token PT_int = intNumber (parseInt token)"
| "parseValue js token PT_uint = intNumber (parseInt token)"
| "parseValue js token PT_float = parseFloat js token"
| "parseValue js token PT_double = parseFloat js token"

text \<open>The reads of \<open>Buffer\<close>: \<open>n\<close> bytes at \<open>offset\<close>, a \<open>RangeError\<close> (\<open>None\<close>) when they
  do not lie inside the buffer.\<close>

definition readBytes :: "string \<Rightarrow> nat \<Rightarrow> nat \<Rightarrow> string option" where
  "readBytes buffer offset n =
     (if offset + n \<le> length buffer then Some (take n (drop offset buffer)) else None)"

definition uintLE :: "string \<Rightarrow> int" where
  "uintLE bs = foldr (\<lambda>b a. int (of_char b) + 256 * a) bs 0"

definition uintBE :: "string \<Rightarrow> int" where
  "uintBE bs = uintLE (rev bs)"

definition toSigned :: "nat \<Rightarrow> int \<Rightarrow> int" where
  "toSigned bits v = (if 2 ^ (bits - 1) \<le> v then v - 2 ^ bits else v)"

definition readUint :: "string \<Rightarrow> nat \<Rightarrow> nat \<Rightarrow> bool \<Rightarrow> int option" where
  "readUint buffer offset n littleEndian =
     map_option (if littleEndian then uintLE else uintBE) (readBytes buffer offset n)"

definition readInt :: "string \<Rightarrow> nat \<Rightarrow> nat \<Rightarrow> bool \<Rightarrow> int option" where
  "readInt buffer offset n littleEndian =
     map_option (toSigned (8 * n)) (readUint buffer offset n littleEndian)"

fun readValue ::
  "'f builtins \<Rightarrow> string \<Rightarrow> PropertyType \<Rightarrow> nat \<Rightarrow> bool \<Rightarrow> 'f number option" where
  "readValue js buffer PT_char offset littleEndian =
     map_option JInt (readInt buffer offset 1 littleEndian)"
| "readValue js buffer PT_uchar offset littleEndian =
     map_option JInt (readUint buffer offset 1 littleEndian)"
| "readValue js buffer PT_short offset littleEndian =
     map_option JInt (readInt buffer offset 2 littleEndian)"
| "readValue js buffer PT_ushort offset littleEndian =
     map_option JInt (readUint buffer offset 2 littleEndian)"
| "readValue js buffer PT_int offset littleEndian =
     map_option JInt (readInt buffer offset 4 littleEndian)"
| "readValue js buffer PT_uint offset littleEndian =
     map_option JInt (readUint buffer offset 4 littleEndian)"
| "readValue js buffer PT_float offset littleEndian =
     map_option (if littleEndian then readFloatLE js else readFloatBE js)
       (readBytes buffer offset 4)"
| "readValue js buffer PT_double offset littleEndian =
     map_option (if littleEndian then readDoubleLE js else readDoubleBE js)
       (readBytes buffer offset 8)"

fun getNumByte :: "PropertyType \<Rightarrow> nat" where
  "getNumByte PT_char = 1"
| "getNumByte PT_uchar = 1"
| "getNumByte PT_short = 2"
| "getNumByte PT_ushort = 2"
| "getNumByte PT_int = 4"
| "getNumByte PT_uint = 4"
| "getNumByte PT_float = 4"
| "getNumByte PT_double = 8"

subsection \<open>Scalar and list properties\<close>

text \<open>\<open>TypedProperty\<close> holds \<open>values\<close>; \<open>TypedListProperty\<close> holds \<open>listCountBytes\<close>,
  \<open>flattenedData\<close> and \<open>flattenedIndexStart\<close>.\<close>

datatype 'f Property =
    TypedProperty (pname: string) (ptype: PropertyType) (pvalues: "'f number list")
  | TypedListProperty (pname: string) (ptype: PropertyType) (listCountBytes: int)
      (flattenedData: "'f number list") (flattenedIndexStart: "int option list")

text \<open>\<open>new TypedProperty(name, type)\<close> and \<open>new TypedListProperty(name, type, n)\<close>.\<close>

definition newTypedProperty :: "string \<Rightarrow> PropertyType \<Rightarrow> 'f Property" where
  "newTypedProperty n t = TypedProperty n t []"

definition newTypedListProperty :: "string \<Rightarrow> PropertyType \<Rightarrow> int \<Rightarrow> 'f Property" where
  "newTypedListProperty n t k = TypedListProperty n t k [] [Some 0]"

text \<open>\<open>parseNext\<close> of both classes: the property after the pushes, and the new token
  index.\<close>

fun parseNext ::
  "'f builtins \<Rightarrow> 'f Property \<Rightarrow> string list \<Rightarrow> nat \<Rightarrow> 'f Property \<times> nat" where
  "parseNext js (TypedProperty n t vs) tokens tokenIndex =
     (TypedProperty n t (vs @ [parseValue js (tokenAt tokens tokenIndex) t]), tokenIndex + 1)"
| "parseNext js (TypedListProperty n t k fd fis) tokens tokenIndex =
     (let count = parseInt (tokenAt tokens tokenIndex);
          afterSize = numAdd (Some (int (length fd))) count
      in (TypedListProperty n t k
            (fd @ map (\<lambda>i. parseValue js (tokenAt tokens (tokenIndex + 1 + i)) t)
                    [0 ..< loopCount count])
            (fis @ [afterSize]),
          tokenIndex + 1 + loopCount count))"

text \<open>The loop of \<open>readNext\<close> that pushes \<open>count\<close> values; a read past the end throws
  after the values read so far have been pushed.\<close>

fun readListValues ::
  "'f builtins \<Rightarrow> string \<Rightarrow> PropertyType \<Rightarrow> bool \<Rightarrow> nat \<Rightarrow> nat \<Rightarrow> 'f number list
     \<Rightarrow> 'f number list \<times> nat option" where
  "readListValues js buffer t littleEndian 0 offset fd = (fd, Some offset)"
| "readListValues js buffer t littleEndian (Suc c) offset fd =
     (case readValue js buffer t offset littleEndian of
        None \<Rightarrow> (fd, None)
      | Some v \<Rightarrow> readListValues js buffer t littleEndian c (offset + getNumByte t) (fd @ [v]))"

text \<open>The \<open>switch\<close> on \<open>listCountBytes\<close>; the outer \<open>None\<close> is a throw (a read past the
  end, or \<open>invalid listCountBytes\<close>).\<close>

definition readListCount :: "string \<Rightarrow> int \<Rightarrow> nat \<Rightarrow> bool \<Rightarrow> int option" where
  "readListCount buffer k offset littleEndian =
     (if k = 1 then readUint buffer offset 1 littleEndian
      else if k = 2 then readUint buffer offset 2 littleEndian
      else if k = 4 then readUint buffer offset 4 littleEndian
      else None)"

text \<open>\<open>readNext\<close> (\<open>littleEndian\<close> true) and \<open>readNextBigEndian\<close> (false) of both classes,
  which differ in the byte order of their reads only: the property after the pushes,
  and the new offset or \<open>None\<close> for a throw.\<close>

fun readNextWith ::
  "bool \<Rightarrow> 'f builtins \<Rightarrow> 'f Property \<Rightarrow> string \<Rightarrow> nat \<Rightarrow> 'f Property \<times> nat option" where
  "readNextWith littleEndian js (TypedProperty n t vs) buffer offset =
     (case readValue js buffer t offset littleEndian of
        None \<Rightarrow> (TypedProperty n t vs, None)
      | Some v \<Rightarrow> (TypedProperty n t (vs @ [v]), Some (offset + getNumByte t)))"
| "readNextWith littleEndian js (TypedListProperty n t k fd fis) buffer offset =
     (case readListCount buffer k offset littleEndian of
        None \<Rightarrow> (TypedListProperty n t k fd fis, None)
      | Some count \<Rightarrow>
          (let afterSize = numAdd (Some (int (length fd))) (Some count) in
           case readListValues js buffer t littleEndian (loopCount (Some count))
                  (offset + nat k) fd of
             (fd', None) \<Rightarrow> (TypedListProperty n t k fd' fis, None)
           | (fd', Some offset') \<Rightarrow>
               (TypedListProperty n t k fd' (fis @ [afterSize]), Some offset')))"

definition readNext ::
  "'f builtins \<Rightarrow> 'f Property \<Rightarrow> string \<Rightarrow> nat \<Rightarrow> 'f Property \<times> nat option" where
  "readNext = readNextWith True"

definition readNextBigEndian ::
  "'f builtins \<Rightarrow> 'f Property \<Rightarrow> string \<Rightarrow> nat \<Rightarrow> 'f Property \<times> nat option" where
  "readNextBigEndian = readNextWith False"

text \<open>\<open>createPropertyWithType\<close>; \<open>None\<close> is \<open>undefined\<close>.\<close>

definition listCountBytesOf :: "string \<Rightarrow> int option" where
  "listCountBytesOf listCountTypeStr =
     (if listCountTypeStr \<in> {''uchar'', ''uint8'', ''char'', ''int8''} then Some 1
      else if listCountTypeStr \<in> {''ushort'', ''uint16'', ''short'', ''int16''} then Some 2
      else if listCountTypeStr \<in> {''uint'', ''uint32'', ''int'', ''int32''} then Some 4
      else None)"

definition propertyTypeOf :: "string \<Rightarrow> PropertyType option" where
  "propertyTypeOf typeStr =
     (if typeStr \<in> {''uchar'', ''uint8''} then Some PT_uchar
      else if typeStr \<in> {''ushort'', ''uint16''} then Some PT_ushort
      else if typeStr \<in> {''uint'', ''uint32''} then Some PT_uint
      else if typeStr \<in> {''char'', ''int8''} then Some PT_char
      else if typeStr \<in> {''short'', ''int16''} then Some PT_short
      else if typeStr \<in> {''int'', ''int32''} then Some PT_int
      else if typeStr \<in> {''float'', ''float32''} then Some PT_float
      else if typeStr \<in> {''double'', ''float64''} then Some PT_double
      else None)"

definition createPropertyWithType ::
  "string \<Rightarrow> string \<Rightarrow> bool \<Rightarrow> string \<Rightarrow> 'f Property option" where
  "createPropertyWithType n typeStr isList listCountTypeStr =
     (case (if isList then listCountBytesOf listCountTypeStr else Some (- 1)) of
        None \<Rightarrow> None
      | Some k \<Rightarrow>
          (case propertyTypeOf typeStr of
             None \<Rightarrow> None
           | Some t \<Rightarrow>
               Some (if isList then newTypedListProperty n t k else newTypedProperty n t)))"

subsection \<open>The model\<close>

record 'f Element =
  name :: string
  count :: "int option"
  properties :: "'f Property list"

record Header =
  type :: string
  version :: string
  comments :: "string list"
  objInfoComments :: "string list"

record 'f PlyData =
  header :: Header
  elements :: "'f Element list"

text \<open>The object that \<open>new PlyData()\<close> builds.\<close>

definition newPlyData :: "'f PlyData" where
  "newPlyData =
     \<lparr>header = \<lparr>type = [], version = [], comments = [], objInfoComments = []\<rparr>,
      elements = []\<rparr>"

subsection \<open>The header parser\<close>

text \<open>\<open>this.elements[this.elements.length - 1].properties.push(property)\<close>, called on a
  list that is not empty.\<close>

definition pushProperty :: "'f Property \<Rightarrow> 'f Element list \<Rightarrow> 'f Element list" where
  "pushProperty p es = butlast es @ [(last es)\<lparr>properties := properties (last es) @ [p]\<rparr>]"

text \<open>One round of the loop over the header lines: go on with the model updated, leave
  the loop (\<open>break\<close>), or \<open>return false\<close>.\<close>

datatype 'f step = Continue "'f PlyData" | Break | ReturnFalse

definition parseHeaderLine :: "string \<Rightarrow> 'f PlyData \<Rightarrow> 'f step" where
  "parseHeaderLine line m =
     (if line = [] then Continue m
      else if startsWith line ''comment'' then
        Continue (m\<lparr>header := (header m)\<lparr>comments := comments (header m) @ [substring line 8]\<rparr>\<rparr>)
      else if startsWith line ''obj_info'' then
        Continue (m\<lparr>header := (header m)
                      \<lparr>objInfoComments := objInfoComments (header m) @ [substring line 9]\<rparr>\<rparr>)
      else if startsWith line ''element'' then
        (let tokens = split DELIMITER line in
         if length tokens \<noteq> 3 then ReturnFalse
         else Continue (m\<lparr>elements := elements m @
                 [\<lparr>name = tokens ! 1, count = parseInt (tokens ! 2), properties = []\<rparr>]\<rparr>))
      else if startsWith line ''property list'' then
        (let tokens = split DELIMITER line in
         if length tokens \<noteq> 5 then ReturnFalse
         else if elements m = [] then ReturnFalse
         else (case createPropertyWithType (tokens ! 4) (tokens ! 3) True (tokens ! 2) of
                 None \<Rightarrow> ReturnFalse
               | Some p \<Rightarrow> Continue (m\<lparr>elements := pushProperty p (elements m)\<rparr>)))
      else if startsWith line ''property'' then
        (let tokens = split DELIMITER line in
         if length tokens \<noteq> 3 then ReturnFalse
         else if elements m = [] then ReturnFalse
         else (case createPropertyWithType (tokens ! 2) (tokens ! 1) False [] of
                 None \<Rightarrow> ReturnFalse
               | Some p \<Rightarrow> Continue (m\<lparr>elements := pushProperty p (elements m)\<rparr>)))
      else if startsWith line ''end_header'' then Break
      else ReturnFalse)"

fun parseHeaderLines :: "string list \<Rightarrow> 'f PlyData \<Rightarrow> bool \<times> 'f PlyData" where
  "parseHeaderLines [] m = (True, m)"
| "parseHeaderLines (line # lines) m =
     (case parseHeaderLine line m of
        Continue m' \<Rightarrow> parseHeaderLines lines m'
      | Break \<Rightarrow> (True, m)
      | ReturnFalse \<Rightarrow> (False, m))"

text \<open>\<open>_parseHeader\<close>. A line that is missing makes \<open>trim\<close> or \<open>split\<close> throw, and the
  \<open>catch\<close> returns false. The format and the version are stored before they are
  checked.\<close>

definition parseHeader :: "string list \<Rightarrow> 'f PlyData \<Rightarrow> bool \<times> 'f PlyData" where
  "parseHeader lines m =
     (case lines of
        [] \<Rightarrow> (False, m)
      | line0 # rest0 \<Rightarrow>
          if trim line0 \<noteq> ''ply'' then (False, m)
          else (case rest0 of
                  [] \<Rightarrow> (False, m)
                | line1 # rest1 \<Rightarrow>
                    (let tokens = split DELIMITER line1 in
                     if length tokens \<noteq> 3 then (False, m)
                     else (let m1 = m\<lparr>header := (header m)
                                      \<lparr>type := tokens ! 1, version := tokens ! 2\<rparr>\<rparr> in
                           if tokens ! 0 \<noteq> ''format'' then (False, m1)
                           else if version (header m1) \<noteq> ''1.0'' then (False, m1)
                           else parseHeaderLines rest1 m1))))"

subsection \<open>The body decoders\<close>

text \<open>\<open>for (const property of element.properties) iTok = property.parseNext(tokens, iTok)\<close>.\<close>

fun parseLine ::
  "'f builtins \<Rightarrow> string list \<Rightarrow> 'f Property list \<Rightarrow> nat \<Rightarrow> 'f Property list" where
  "parseLine js tokens [] iTok = []"
| "parseLine js tokens (p # ps) iTok =
     (case parseNext js p tokens iTok of (p', iTok') \<Rightarrow> p' # parseLine js tokens ps iTok')"

text \<open>The loop over the instances of one element in \<open>_parseAscii\<close>, on the lines from
  \<open>lineCount\<close> on. A line past the end is \<open>undefined\<close>, which is not the empty string,
  and its \<open>split\<close> throws.\<close>

fun parseAsciiInstances ::
  "'f builtins \<Rightarrow> nat \<Rightarrow> 'f Property list \<Rightarrow> string list
     \<Rightarrow> 'f Property list \<times> string list option" where
  "parseAsciiInstances js 0 ps lines = (ps, Some lines)"
| "parseAsciiInstances js (Suc c) ps lines =
     (case (if ps = [] then dropWhile (\<lambda>line. line = []) lines else lines) of
        [] \<Rightarrow> (ps, None)
      | line # rest \<Rightarrow>
          parseAsciiInstances js c (parseLine js (split DELIMITER line) ps 0) rest)"

fun parseAsciiElements ::
  "'f builtins \<Rightarrow> 'f Element list \<Rightarrow> string list \<Rightarrow> 'f Element list \<times> string list option"
  where
  "parseAsciiElements js [] lines = ([], Some lines)"
| "parseAsciiElements js (e # es) lines =
     (case parseAsciiInstances js (loopCount (count e)) (properties e) lines of
        (ps, None) \<Rightarrow> (e\<lparr>properties := ps\<rparr> # es, None)
      | (ps, Some rest) \<Rightarrow>
          (case parseAsciiElements js es rest of
             (es', r) \<Rightarrow> (e\<lparr>properties := ps\<rparr> # es', r)))"

text \<open>\<open>_parseAscii\<close>: whether it returned (true) or threw (false), and the model after
  the pushes.\<close>

definition parseAscii :: "'f builtins \<Rightarrow> string list \<Rightarrow> 'f PlyData \<Rightarrow> bool \<times> 'f PlyData" where
  "parseAscii js lines m =
     (case parseAsciiElements js (elements m) lines of
        (es, r) \<Rightarrow> (r \<noteq> None, m\<lparr>elements := es\<rparr>))"

text \<open>\<open>for (const property of element.properties) offset = property.readNext(buffer, offset)\<close>,
  for either byte order.\<close>

fun readProperties ::
  "bool \<Rightarrow> 'f builtins \<Rightarrow> string \<Rightarrow> 'f Property list \<Rightarrow> nat
     \<Rightarrow> 'f Property list \<times> nat option" where
  "readProperties littleEndian js buffer [] offset = ([], Some offset)"
| "readProperties littleEndian js buffer (p # ps) offset =
     (case readNextWith littleEndian js p buffer offset of
        (p', None) \<Rightarrow> (p' # ps, None)
      | (p', Some offset') \<Rightarrow>
          (case readProperties littleEndian js buffer ps offset' of
             (ps', r) \<Rightarrow> (p' # ps', r)))"

text \<open>The loop over the instances of one element in \<open>_parseBinary\<close>.\<close>

fun readInstances ::
  "'f builtins \<Rightarrow> string \<Rightarrow> nat \<Rightarrow> 'f Property list \<Rightarrow> nat \<Rightarrow> 'f Property list \<times> nat option"
  where
  "readInstances js buffer 0 ps offset = (ps, Some offset)"
| "readInstances js buffer (Suc c) ps offset =
     (case readProperties True js buffer ps offset of
        (ps', None) \<Rightarrow> (ps', None)
      | (ps', Some offset') \<Rightarrow> readInstances js buffer c ps' offset')"

fun parseBinaryElements ::
  "'f builtins \<Rightarrow> string \<Rightarrow> 'f Element list \<Rightarrow> nat \<Rightarrow> 'f Element list \<times> nat option" where
  "parseBinaryElements js buffer [] offset = ([], Some offset)"
| "parseBinaryElements js buffer (e # es) offset =
     (case readInstances js buffer (loopCount (count e)) (properties e) offset of
        (ps, None) \<Rightarrow> (e\<lparr>properties := ps\<rparr> # es, None)
      | (ps, Some offset') \<Rightarrow>
          (case parseBinaryElements js buffer es offset' of
             (es', r) \<Rightarrow> (e\<lparr>properties := ps\<rparr> # es', r)))"

definition parseBinary :: "'f builtins \<Rightarrow> string \<Rightarrow> 'f PlyData \<Rightarrow> bool \<times> 'f PlyData" where
  "parseBinary js buffer m =
     (case parseBinaryElements js buffer (elements m) 0 of
        (es, r) \<Rightarrow> (r \<noteq> None, m\<lparr>elements := es\<rparr>))"

text \<open>\<open>_parseBinaryBigEndian\<close>: the loop over the elements holds the loop over the
  properties only.\<close>

fun parseBinaryBigEndianElements ::
  "'f builtins \<Rightarrow> string \<Rightarrow> 'f Element list \<Rightarrow> nat \<Rightarrow> 'f Element list \<times> nat option" where
  "parseBinaryBigEndianElements js buffer [] offset = ([], Some offset)"
| "parseBinaryBigEndianElements js buffer (e # es) offset =
     (case readProperties False js buffer (properties e) offset of
        (ps, None) \<Rightarrow> (e\<lparr>properties := ps\<rparr> # es, None)
      | (ps, Some offset') \<Rightarrow>
          (case parseBinaryBigEndianElements js buffer es offset' of
             (es', r) \<Rightarrow> (e\<lparr>properties := ps\<rparr> # es', r)))"

definition parseBinaryBigEndian ::
  "'f builtins \<Rightarrow> string \<Rightarrow> 'f PlyData \<Rightarrow> bool \<times> 'f PlyData" where
  "parseBinaryBigEndian js buffer m =
     (case parseBinaryBigEndianElements js buffer (elements m) 0 of
        (es, r) \<Rightarrow> (r \<noteq> None, m\<lparr>elements := es\<rparr>))"

subsection \<open>load\<close>

text \<open>The search of \<open>splitByEndHeader\<close>: the first index at which the bytes of
  \<open>"end_header\n"\<close> stand.\<close>

definition endHeaderTarget :: string where
  "endHeaderTarget = ''end_header'' @ [CHR 0x0A]"

fun findEndHeader :: "string \<Rightarrow> nat \<Rightarrow> nat option" where
  "findEndHeader [] i = None"
| "findEndHeader (c # cs) i =
     (if take (length endHeaderTarget) (c # cs) = endHeaderTarget then Some i
      else findEndHeader cs (i + 1))"

text \<open>\<open>data.slice(start)\<close>: a negative start counts from the end.\<close>

definition sliceFrom :: "string \<Rightarrow> int \<Rightarrow> string" where
  "sliceFrom data start =
     (if start < 0 then drop (nat (max 0 (int (length data) + start))) data
      else drop (nat start) data)"

definition splitByEndHeader :: "string \<Rightarrow> (string \<times> string) option" where
  "splitByEndHeader data =
     (case findEndHeader data 0 of
        None \<Rightarrow> None
      | Some i \<Rightarrow>
          (let headerLength = i + length endHeaderTarget in
           Some (take headerLength data,
                 sliceFrom data (int headerLength - int (length data)))))"

text \<open>\<open>load\<close>, on the bytes that \<open>readFileSync\<close> returned: the boolean it returns and the
  model it leaves.\<close>

definition load :: "'f builtins \<Rightarrow> string \<Rightarrow> 'f PlyData \<Rightarrow> bool \<times> 'f PlyData" where
  "load js buf m =
     (case splitByEndHeader buf of
        None \<Rightarrow> (False, m)
      | Some (headerPart, bodyPart) \<Rightarrow>
          (case parseHeader (split newline headerPart) m of
             (False, m') \<Rightarrow> (False, m')
           | (True, m') \<Rightarrow>
               if type (header m') = ''ascii'' then parseAscii js (split newline bodyPart) m'
               else if type (header m') = ''binary_little_endian'' then parseBinary js bodyPart m'
               else if type (header m') = ''binary_big_endian''
                 then parseBinaryBigEndian js bodyPart m'
               else (False, m')))"

subsection \<open>save\<close>










subsection \<open>The accessors\<close>

text \<open>The two errors of the accessors: \<open>MissingField\<close> for the throws
  \<open>vertex element or properties not found\<close> and \<open>vertex indices property not found\<close>,
  \<open>InconsistentData\<close> for \<open>invalid vertex properties\<close>.\<close>

datatype error = MissingField | InconsistentData

text \<open>\<open>vertex?.properties.find(property => property.name === n)\<close>.\<close>

definition findProperty :: "'f Element option \<Rightarrow> string \<Rightarrow> 'f Property option" where
  "findProperty e n =
     (case e of None \<Rightarrow> None | Some v \<Rightarrow> find (\<lambda>p. pname p = n) (properties v))"

fun getValues :: "'f Property \<Rightarrow> 'f number list" where
  "getValues (TypedProperty n t vs) = vs"
| "getValues (TypedListProperty n t k fd fis) = []"

definition getVertexValues ::
  "'f PlyData \<Rightarrow> string \<Rightarrow> string \<Rightarrow> string \<Rightarrow> string \<Rightarrow> error + 'f number list" where
  "getVertexValues m vertexElementName componentName1 componentName2 componentName3 =
     (let vertex = find (\<lambda>e. name e = vertexElementName) (elements m);
          property1 = findProperty vertex componentName1;
          property2 = findProperty vertex componentName2;
          property3 = findProperty vertex componentName3
      in if property1 = None \<or> property2 = None \<or> property3 = None then Inl MissingField
         else (let values1 = getValues (the property1);
                   values2 = getValues (the property2);
                   values3 = getValues (the property3)
               in if length values1 \<noteq> length values2 \<or> length values1 \<noteq> length values3
                  then Inl InconsistentData
                  else Inr (concat (map (\<lambda>i. [values1 ! i, values2 ! i, values3 ! i])
                                      [0 ..< length values1]))))"

definition getVertexPositions :: "'f PlyData \<Rightarrow> string \<Rightarrow> error + 'f number list" where
  "getVertexPositions m vertexElementName = getVertexValues m vertexElementName ''x'' ''y'' ''z''"

definition getVertexColors :: "'f PlyData \<Rightarrow> string \<Rightarrow> error + 'f number list" where
  "getVertexColors m vertexElementName =
     getVertexValues m vertexElementName ''red'' ''green'' ''blue''"

record 'f Faces =
  indices :: "'f number list"
  strides :: "int option list"

text \<open>\<open>getIndices\<close> inside \<open>getFaces\<close>; \<open>None\<close> is \<open>null\<close>.\<close>

fun getIndices :: "'f Property option \<Rightarrow> 'f Faces option" where
  "getIndices None = None"
| "getIndices (Some (TypedListProperty n t k fd fis)) = Some \<lparr>indices = fd, strides = fis\<rparr>"
| "getIndices (Some (TypedProperty n t vs)) = None"

definition getFaces :: "'f PlyData \<Rightarrow> error + 'f Faces" where
  "getFaces m =
     (let face = find (\<lambda>e. name e = ''face'') (elements m);
          vertexIndices = findProperty face ''vertex_indices'';
          vertexIndex = findProperty face ''vertex_index''
      in case getIndices vertexIndices of
           Some ret \<Rightarrow> Inr ret
         | None \<Rightarrow>
             (case getIndices vertexIndex of
                Some ret \<Rightarrow> Inr ret
              | None \<Rightarrow> Inl MissingField))"

text \<open>An instance of the built-in functions for inputs that hold no floating-point
  property: it has no double besides the integers and \<open>NaN\<close>, and it prints every
  integer in decimal digits (the integers of the example inputs are small).\<close>

definition integersOnly :: "unit builtins" where
  "integersOnly =
     \<lparr>parseFloat = (\<lambda>s. intNumber (parseInt s)),
      readFloatLE = (\<lambda>bs. JNaN), readFloatBE = (\<lambda>bs. JNaN),
      readDoubleLE = (\<lambda>bs. JNaN), readDoubleBE = (\<lambda>bs. JNaN),
      doubleToString = (\<lambda>d. ''NaN''),
      integerToString = (\<lambda>n. decimalText (Some n))\<rparr>"

subsection \<open>Statements of the specification, and example inputs\<close>

text \<open>\<open>getFaces\<close> as the specification words it: the property named
  \<open>vertex_indices\<close> is located, \<open>vertex_index\<close> only if \<open>vertex_indices\<close> is absent; the
  call fails when neither name is present or the located property is not a list
  property.\<close>

definition getFacesAsSpecified :: "'f PlyData \<Rightarrow> error + 'f Faces" where
  "getFacesAsSpecified m =
     (let face = find (\<lambda>e. name e = ''face'') (elements m);
          located = (case findProperty face ''vertex_indices'' of
                       Some p \<Rightarrow> Some p
                     | None \<Rightarrow> findProperty face ''vertex_index'')
      in case located of
           Some (TypedListProperty n t k fd fis) \<Rightarrow> Inr \<lparr>indices = fd, strides = fis\<rparr>
         | _ \<Rightarrow> Inl MissingField)"

text \<open>\<open>a <= b\<close> on integers or \<open>NaN\<close>, and a sequence whose every entry is \<open><=\<close> the
  next.\<close>

fun numLe :: "int option \<Rightarrow> int option \<Rightarrow> bool" where
  "numLe (Some a) (Some b) = (a \<le> b)"
| "numLe _ _ = False"

fun nonDecreasing :: "int option list \<Rightarrow> bool" where
  "nonDecreasing (a # b # rest) = (numLe a b \<and> nonDecreasing (b # rest))"
| "nonDecreasing _ = True"

text \<open>A list property after \<open>n\<close> instances, as the data model describes it:
  \<open>flattenedIndexStart\<close> has \<open>n + 1\<close> entries, starts at 0, does not decrease and ends
  at the length of \<open>flattenedData\<close>; a scalar property then holds \<open>n\<close> values.\<close>

fun instancesHeld :: "nat \<Rightarrow> 'f Property \<Rightarrow> bool" where
  "instancesHeld n (TypedProperty pn t vs) = (length vs = n)"
| "instancesHeld n (TypedListProperty pn t k fd fis) = (length fis = n + 1)"

fun startsAtZero :: "'f Property \<Rightarrow> bool" where
  "startsAtZero (TypedProperty pn t vs) = True"
| "startsAtZero (TypedListProperty pn t k fd fis) = (take 1 fis = [Some 0])"

fun boundariesOrdered :: "'f Property \<Rightarrow> bool" where
  "boundariesOrdered (TypedProperty pn t vs) = True"
| "boundariesOrdered (TypedListProperty pn t k fd fis) =
     (nonDecreasing fis \<and> fis \<noteq> [] \<and> last fis = Some (int (length fd)))"

text \<open>A mesh of two vertices and one face, in ASCII.\<close>

definition meshAscii :: string where
  "meshAscii = ''ply\<newline>format ascii 1.0\<newline>comment two vertices\<newline>element vertex 2\<newline>property int x\<newline>property int y\<newline>property int z\<newline>element face 1\<newline>property list uchar int vertex_indices\<newline>end_header\<newline>1 2 3\<newline>4 5 6\<newline>3 0 1 1\<newline>''"

text \<open>Two files of one vertex each.\<close>

definition vertexFile1 :: string where
  "vertexFile1 = ''ply\<newline>format ascii 1.0\<newline>comment first file\<newline>obj_info one\<newline>element vertex 1\<newline>property int x\<newline>property int y\<newline>property int z\<newline>end_header\<newline>1 2 3\<newline>''"

definition vertexFile2 :: string where
  "vertexFile2 = ''ply\<newline>format ascii 1.0\<newline>comment second file\<newline>obj_info two\<newline>element vertex 1\<newline>property int x\<newline>property int y\<newline>property int z\<newline>end_header\<newline>7 8 9\<newline>''"

text \<open>A face element whose \<open>vertex_indices\<close> is a scalar property and whose
  \<open>vertex_index\<close> is a list property.\<close>

definition facesScalarThenList :: string where
  "facesScalarThenList = ''ply\<newline>format ascii 1.0\<newline>element face 1\<newline>property int vertex_indices\<newline>property list uchar int vertex_index\<newline>end_header\<newline>7 3 0 1 2\<newline>''"

text \<open>A vertex element whose \<open>z\<close> is a list property.\<close>

definition vertexWithListZ :: string where
  "vertexWithListZ = ''ply\<newline>format ascii 1.0\<newline>element vertex 1\<newline>property int x\<newline>property int y\<newline>property list uchar int z\<newline>end_header\<newline>1 2 1 3\<newline>''"

text \<open>Two instances of a scalar and a list property in binary: the header for a byte
  order, and the six bytes of the body (the values are single bytes, so the body reads
  the same in both orders).\<close>

definition binaryHeader :: "string \<Rightarrow> string" where
  "binaryHeader format = ''ply\<newline>format '' @ format @ '' 1.0\<newline>element vertex 2\<newline>property uchar x\<newline>property list uchar uchar l\<newline>end_header\<newline>''"

definition scalarHeader :: "string \<Rightarrow> string" where
  "scalarHeader format = ''ply\<newline>format '' @ format @ '' 1.0\<newline>element vertex 2\<newline>property uchar x\<newline>end_header\<newline>''"

definition binaryBody :: string where
  "binaryBody = [CHR 0x01, CHR 0x01, CHR 0x09, CHR 0x02, CHR 0x01, CHR 0x08]"

text \<open>A list whose count token is negative, and an element whose count token is
  negative or not a number.\<close>

definition negativeListCount :: string where
  "negativeListCount = ''ply\<newline>format ascii 1.0\<newline>element face 1\<newline>property list uchar int vertex_indices\<newline>end_header\<newline>-1\<newline>''"

text \<open>A header that declares one element \<open>vertex\<close> with the given count token and a
  one-byte property \<open>x\<close>.\<close>

definition countHeader :: "string \<Rightarrow> string \<Rightarrow> string" where
  "countHeader format token = ''ply\<newline>format '' @ format @ '' 1.0\<newline>element vertex '' @ token @ ''\<newline>property uchar x\<newline>end_header\<newline>''"

text \<open>A little-endian file of one vertex whose \<open>red\<close>, \<open>green\<close> and \<open>blue\<close> are list
  properties, of one byte each: 255, 0 and 0.\<close>

definition listColours :: string where
  "listColours = ''ply\<newline>format binary_little_endian 1.0\<newline>element vertex 1\<newline>property list uchar uchar red\<newline>property list uchar uchar green\<newline>property list uchar uchar blue\<newline>end_header\<newline>'' @ [CHR 0x01, CHR 0xFF, CHR 0x01, CHR 0x00, CHR 0x01, CHR 0x00]"

definition oddElementCounts :: string where
  "oddElementCounts = ''ply\<newline>format ascii 1.0\<newline>element vertex -3\<newline>property int x\<newline>element face many\<newline>property list uchar int vertex_indices\<newline>end_header\<newline>1\<newline>2\<newline>''"

text \<open>A property and an element as the header declares them, with no value yet.\<close>

fun declared :: "'f Property \<Rightarrow> 'f Property" where
  "declared (TypedProperty n t vs) = TypedProperty n t []"
| "declared (TypedListProperty n t k fd fis) = TypedListProperty n t k [] [Some 0]"

definition declaredElement :: "'f Element \<Rightarrow> 'f Element" where
  "declaredElement e = e\<lparr>properties := map declared (properties e)\<rparr>"

text \<open>The header of a model, with the comments, the \<open>obj_info\<close> comments and the
  elements that a parse pushed on a new object appended to those of the model.\<close>

definition appendedTo :: "'f PlyData \<Rightarrow> 'f PlyData \<Rightarrow> 'f PlyData" where
  "appendedTo m parsed =
     \<lparr>header = \<lparr>type = type (header parsed), version = version (header parsed),
                 comments = comments (header m) @ comments (header parsed),
                 objInfoComments = objInfoComments (header m) @ objInfoComments (header parsed)\<rparr>,
      elements = elements m @ elements parsed\<rparr>"

subsection \<open>Well-formed ASCII files\<close>

text \<open>The data model's invariant for an element: its count is an integer that is not
  negative, and each of its properties holds that many instances, with the boundaries
  of a list property starting at 0, ordered, and ending at the length of
  \<open>flattenedData\<close>.\<close>

definition consistentProperty :: "nat \<Rightarrow> 'f Property \<Rightarrow> bool" where
  "consistentProperty n p \<longleftrightarrow> instancesHeld n p \<and> startsAtZero p \<and> boundariesOrdered p"













subsection \<open>Notions for the round trip\<close>

text \<open>A property cut down to its first \<open>k\<close> instances, as a reader that is given its
  declaration by \<open>save\<close> (a one-byte list count) holds it after \<open>k\<close> lines.\<close>

fun upTo :: "nat \<Rightarrow> 'f Property \<Rightarrow> 'f Property" where
  "upTo k (TypedProperty n t vs) = TypedProperty n t (take k vs)"
| "upTo k (TypedListProperty n t b fd fis) =
     TypedListProperty n t 1 (take (loopCount (fis ! k)) fd) (take (Suc k) fis)"
















section \<open>Properties\<close>

subsection \<open>The example inputs, loaded\<close>

lemma load_meshAscii:
  "load integersOnly meshAscii newPlyData =
     (True,
      \<lparr>header = \<lparr>type = ''ascii'', version = ''1.0'', comments = [''two vertices''],
                  objInfoComments = []\<rparr>,
       elements =
         [\<lparr>name = ''vertex'', count = Some 2,
            properties = [TypedProperty ''x'' PT_int [JInt 1, JInt 4],
                          TypedProperty ''y'' PT_int [JInt 2, JInt 5],
                          TypedProperty ''z'' PT_int [JInt 3, JInt 6]]\<rparr>,
          \<lparr>name = ''face'', count = Some 1,
            properties = [TypedListProperty ''vertex_indices'' PT_int 1
                            [JInt 0, JInt 1, JInt 1] [Some 0, Some 3]]\<rparr>]\<rparr>)"
  unfolding meshAscii_def by code_simp

lemma load_facesScalarThenList:
  "load integersOnly facesScalarThenList newPlyData =
     (True,
      \<lparr>header = \<lparr>type = ''ascii'', version = ''1.0'', comments = [], objInfoComments = []\<rparr>,
       elements =
         [\<lparr>name = ''face'', count = Some 1,
            properties = [TypedProperty ''vertex_indices'' PT_int [JInt 7],
                          TypedListProperty ''vertex_index'' PT_int 1
                            [JInt 0, JInt 1, JInt 2] [Some 0, Some 3]]\<rparr>]\<rparr>)"
  unfolding facesScalarThenList_def by code_simp

lemma load_vertexWithListZ:
  "load integersOnly vertexWithListZ newPlyData =
     (True,
      \<lparr>header = \<lparr>type = ''ascii'', version = ''1.0'', comments = [], objInfoComments = []\<rparr>,
       elements =
         [\<lparr>name = ''vertex'', count = Some 1,
            properties = [TypedProperty ''x'' PT_int [JInt 1],
                          TypedProperty ''y'' PT_int [JInt 2],
                          TypedListProperty ''z'' PT_int 1 [JInt 3] [Some 0, Some 1]]\<rparr>]\<rparr>)"
  unfolding vertexWithListZ_def by code_simp

subsection \<open>The accessors\<close>

lemma concat_triples_length:
  "length (concat (map (\<lambda>i. [f i, g i, h i]) [0 ..< n])) = 3 * n"
  by (induction n) simp_all

lemma concat_triples_nth:
  "i < n \<Longrightarrow>
   concat (map (\<lambda>i. [f i, g i, h i]) [0 ..< n]) ! (3 * i) = f i \<and>
   concat (map (\<lambda>i. [f i, g i, h i]) [0 ..< n]) ! Suc (3 * i) = g i \<and>
   concat (map (\<lambda>i. [f i, g i, h i]) [0 ..< n]) ! Suc (Suc (3 * i)) = h i"
proof (induction n)
  case 0
  then show ?case by simp
next
  case (Suc n)
  show ?case
  proof (cases "i < n")
    case True
    with Suc.IH show ?thesis
      by (simp add: nth_append concat_triples_length)
  next
    case False
    with Suc.prems have "i = n" by simp
    then show ?thesis
      by (simp add: nth_append concat_triples_length)
  qed
qed

text \<open>
  C5. \<open>getVertexPositions(elementName)\<close> looks up the first element of that name and its
  first properties named \<open>x\<close>, \<open>y\<close> and \<open>z\<close>. When the element or one of the three
  properties is absent it fails with \<open>MissingField\<close>. The values of a list property are
  taken as the empty sequence, those of a scalar property as they are. When the three
  sequences differ in length it fails with \<open>InconsistentData\<close>; otherwise it returns
  \<open>[x0, y0, z0, x1, y1, z1, ...]\<close>, three numbers for each value of \<open>x\<close>.
\<close>

theorem getVertexPositions_interleaves:
  fixes m :: "'f PlyData" and en :: string
  defines "vertex \<equiv> find (\<lambda>e. name e = en) (elements m)"
  defines "px \<equiv> findProperty vertex ''x''"
  defines "py \<equiv> findProperty vertex ''y''"
  defines "pz \<equiv> findProperty vertex ''z''"
  shows
    "(vertex = None \<or> px = None \<or> py = None \<or> pz = None
        \<longrightarrow> getVertexPositions m en = Inl MissingField)
     \<and> (\<forall>n t k fd fis. getValues (TypedListProperty n t k fd fis :: 'f Property) = [])
     \<and> (\<forall>n t vs. getValues (TypedProperty n t vs :: 'f Property) = vs)
     \<and> (\<forall>x y z. px = Some x \<and> py = Some y \<and> pz = Some z
          \<and> (length (getValues x) \<noteq> length (getValues y)
               \<or> length (getValues x) \<noteq> length (getValues z))
        \<longrightarrow> getVertexPositions m en = Inl InconsistentData)
     \<and> (\<forall>x y z. px = Some x \<and> py = Some y \<and> pz = Some z
          \<and> length (getValues x) = length (getValues y)
          \<and> length (getValues x) = length (getValues z)
        \<longrightarrow> (\<exists>r. getVertexPositions m en = Inr r
                 \<and> length r = 3 * length (getValues x)
                 \<and> (\<forall>i < length (getValues x).
                       r ! (3 * i) = getValues x ! i
                     \<and> r ! (3 * i + 1) = getValues y ! i
                     \<and> r ! (3 * i + 2) = getValues z ! i)))"
proof -
  have missing: "vertex = None \<Longrightarrow> px = None"
    by (simp add: px_def findProperty_def)
  show ?thesis
    unfolding getVertexPositions_def getVertexValues_def Let_def
    using missing
    by (auto simp: vertex_def px_def py_def pz_def
        concat_triples_length concat_triples_nth)
qed

text \<open>The theorem at three models: the loaded mesh (the interleaving), an element whose
  \<open>z\<close> is a list property (\<open>InconsistentData\<close>), and the empty model
  (\<open>MissingField\<close>).\<close>

theorem getVertexPositions_interleaves_witness:
  "(\<exists>r. getVertexPositions (snd (load integersOnly meshAscii newPlyData)) ''vertex'' = Inr r
        \<and> length r = 3 * 2
        \<and> (\<forall>i < 2. r ! (3 * i) = [JInt 1, JInt 4] ! i
                   \<and> r ! (3 * i + 1) = [JInt 2, JInt 5] ! i
                   \<and> r ! (3 * i + 2) = [JInt 3, JInt 6] ! i))
   \<and> getVertexPositions (snd (load integersOnly vertexWithListZ newPlyData)) ''vertex''
       = Inl InconsistentData
   \<and> getVertexPositions (newPlyData :: unit PlyData) ''vertex'' = Inl MissingField"
proof (intro conjI)
  let ?m = "snd (load integersOnly meshAscii newPlyData)"
  let ?x = "TypedProperty ''x'' PT_int [JInt 1, JInt 4] :: unit Property"
  let ?y = "TypedProperty ''y'' PT_int [JInt 2, JInt 5] :: unit Property"
  let ?z = "TypedProperty ''z'' PT_int [JInt 3, JInt 6] :: unit Property"
  have found:
    "findProperty (find (\<lambda>e. name e = ''vertex'') (elements ?m)) ''x'' = Some ?x
     \<and> findProperty (find (\<lambda>e. name e = ''vertex'') (elements ?m)) ''y'' = Some ?y
     \<and> findProperty (find (\<lambda>e. name e = ''vertex'') (elements ?m)) ''z'' = Some ?z
     \<and> length (getValues ?x) = length (getValues ?y)
     \<and> length (getValues ?x) = length (getValues ?z)"
    by (simp add: load_meshAscii findProperty_def)
  from getVertexPositions_interleaves [where m = ?m and en = "''vertex''"] found
  obtain r where r: "getVertexPositions ?m ''vertex'' = Inr r"
    "length r = 3 * length (getValues ?x)"
    "\<forall>i < length (getValues ?x).
       r ! (3 * i) = getValues ?x ! i \<and> r ! (3 * i + 1) = getValues ?y ! i
       \<and> r ! (3 * i + 2) = getValues ?z ! i"
    by blast
  then show "\<exists>r. getVertexPositions ?m ''vertex'' = Inr r
        \<and> length r = 3 * 2
        \<and> (\<forall>i < 2. r ! (3 * i) = [JInt 1, JInt 4] ! i
                   \<and> r ! (3 * i + 1) = [JInt 2, JInt 5] ! i
                   \<and> r ! (3 * i + 2) = [JInt 3, JInt 6] ! i)"
    by simp
next
  let ?m = "snd (load integersOnly vertexWithListZ newPlyData)"
  let ?x = "TypedProperty ''x'' PT_int [JInt 1] :: unit Property"
  let ?y = "TypedProperty ''y'' PT_int [JInt 2] :: unit Property"
  let ?z = "TypedListProperty ''z'' PT_int 1 [JInt 3] [Some 0, Some 1] :: unit Property"
  have found:
    "findProperty (find (\<lambda>e. name e = ''vertex'') (elements ?m)) ''x'' = Some ?x
     \<and> findProperty (find (\<lambda>e. name e = ''vertex'') (elements ?m)) ''y'' = Some ?y
     \<and> findProperty (find (\<lambda>e. name e = ''vertex'') (elements ?m)) ''z'' = Some ?z
     \<and> length (getValues ?x) \<noteq> length (getValues ?z)"
    by (simp add: load_vertexWithListZ findProperty_def)
  with getVertexPositions_interleaves [where m = ?m and en = "''vertex''"]
  show "getVertexPositions ?m ''vertex'' = Inl InconsistentData"
    by blast
next
  have "find (\<lambda>e. name e = ''vertex'') (elements (newPlyData :: unit PlyData)) = None"
    by (simp add: newPlyData_def)
  with getVertexPositions_interleaves [where m = "newPlyData :: unit PlyData" and en = "''vertex''"]
  show "getVertexPositions (newPlyData :: unit PlyData) ''vertex'' = Inl MissingField"
    by blast
qed

text \<open>
  C6, as stated, at a loaded model: the face element has a scalar property named
  \<open>vertex_indices\<close> and a list property named \<open>vertex_index\<close>. The specified accessor
  locates \<open>vertex_indices\<close>, which is not a list property, and fails; \<open>getFaces\<close> falls
  back to \<open>vertex_index\<close> and returns its sequences.
\<close>

theorem getFaces_fallback_counterexample:
  "getFacesAsSpecified (snd (load integersOnly facesScalarThenList newPlyData))
     = Inl MissingField
   \<and> getFaces (snd (load integersOnly facesScalarThenList newPlyData))
     = Inr \<lparr>indices = [JInt 0, JInt 1, JInt 2], strides = [Some 0, Some 3]\<rparr>"
  by (simp add: load_facesScalarThenList getFacesAsSpecified_def getFaces_def
      findProperty_def)

text \<open>
  C6, amended. \<open>getFaces\<close> looks up the first element named \<open>face\<close> and its first
  properties named \<open>vertex_indices\<close> and \<open>vertex_index\<close>. If \<open>vertex_indices\<close> is a list
  property, its \<open>flattenedData\<close> and \<open>flattenedIndexStart\<close> are returned as \<open>indices\<close>
  and \<open>strides\<close>. If \<open>vertex_indices\<close> is absent or is a scalar property, the accessor
  falls back to \<open>vertex_index\<close>: it returns the sequences of that property when it is a
  list property and fails with \<open>MissingField\<close> when it is absent or scalar. Whenever
  \<open>vertex_indices\<close> is not a scalar property this is the accessor as specified. (The
  model returns the sequences by value; that they are shared with the property is not
  expressed.)
\<close>

theorem getFaces_falls_back:
  fixes m :: "'f PlyData"
  defines "face \<equiv> find (\<lambda>e. name e = ''face'') (elements m)"
  defines "vi \<equiv> findProperty face ''vertex_indices''"
  defines "vx \<equiv> findProperty face ''vertex_index''"
  shows
    "(\<forall>n t k fd fis. vi = Some (TypedListProperty n t k fd fis)
        \<longrightarrow> getFaces m = Inr \<lparr>indices = fd, strides = fis\<rparr>)
     \<and> (vi = None \<or> (\<exists>n t vs. vi = Some (TypedProperty n t vs))
        \<longrightarrow> (\<forall>n t k fd fis. vx = Some (TypedListProperty n t k fd fis)
               \<longrightarrow> getFaces m = Inr \<lparr>indices = fd, strides = fis\<rparr>)
            \<and> (vx = None \<or> (\<exists>n t vs. vx = Some (TypedProperty n t vs))
               \<longrightarrow> getFaces m = Inl MissingField))
     \<and> ((\<forall>n t vs. vi \<noteq> Some (TypedProperty n t vs))
        \<longrightarrow> getFaces m = getFacesAsSpecified m)"
proof -
  have spec_eq: "getFaces m = getFacesAsSpecified m" if "\<forall>n t vs. vi \<noteq> Some (TypedProperty n t vs)"
  proof (cases vi)
    case None
    then show ?thesis
      unfolding getFaces_def getFacesAsSpecified_def Let_def
      by (cases vx rule: getIndices.cases)
         (simp_all add: vi_def [symmetric] vx_def [symmetric] face_def [symmetric])
  next
    case (Some p)
    with that show ?thesis
      unfolding getFaces_def getFacesAsSpecified_def Let_def
      by (cases p) (simp_all add: vi_def [symmetric] face_def [symmetric])
  qed
  show ?thesis
    using spec_eq
    unfolding getFaces_def Let_def
    by (auto simp: vi_def [symmetric] vx_def [symmetric] face_def [symmetric])
qed

text \<open>The theorem at three loaded or fresh models: \<open>vertex_indices\<close> a list property,
  \<open>vertex_indices\<close> scalar with a list \<open>vertex_index\<close>, and no face element.\<close>

theorem getFaces_falls_back_witness:
  "getFaces (snd (load integersOnly meshAscii newPlyData))
     = Inr \<lparr>indices = [JInt 0, JInt 1, JInt 1], strides = [Some 0, Some 3]\<rparr>
   \<and> getFaces (snd (load integersOnly facesScalarThenList newPlyData))
     = Inr \<lparr>indices = [JInt 0, JInt 1, JInt 2], strides = [Some 0, Some 3]\<rparr>
   \<and> getFaces (newPlyData :: unit PlyData) = Inl MissingField
   \<and> getFaces (newPlyData :: unit PlyData) = getFacesAsSpecified newPlyData"
proof (intro conjI)
  let ?m = "snd (load integersOnly meshAscii newPlyData)"
  have "findProperty (find (\<lambda>e. name e = ''face'') (elements ?m)) ''vertex_indices''
      = Some (TypedListProperty ''vertex_indices'' PT_int 1 [JInt 0, JInt 1, JInt 1]
                [Some 0, Some 3])"
    by (simp add: load_meshAscii findProperty_def)
  with getFaces_falls_back [where m = ?m]
  show "getFaces ?m = Inr \<lparr>indices = [JInt 0, JInt 1, JInt 1], strides = [Some 0, Some 3]\<rparr>"
    by blast
next
  let ?m = "snd (load integersOnly facesScalarThenList newPlyData)"
  have "findProperty (find (\<lambda>e. name e = ''face'') (elements ?m)) ''vertex_indices''
      = Some (TypedProperty ''vertex_indices'' PT_int [JInt 7])"
    and "findProperty (find (\<lambda>e. name e = ''face'') (elements ?m)) ''vertex_index''
      = Some (TypedListProperty ''vertex_index'' PT_int 1 [JInt 0, JInt 1, JInt 2]
                [Some 0, Some 3])"
    by (simp_all add: load_facesScalarThenList findProperty_def)
  with getFaces_falls_back [where m = ?m]
  show "getFaces ?m = Inr \<lparr>indices = [JInt 0, JInt 1, JInt 2], strides = [Some 0, Some 3]\<rparr>"
    by blast
next
  let ?m = "newPlyData :: unit PlyData"
  have none: "findProperty (find (\<lambda>e. name e = ''face'') (elements ?m)) ''vertex_indices'' = None"
    "findProperty (find (\<lambda>e. name e = ''face'') (elements ?m)) ''vertex_index'' = None"
    by (simp_all add: newPlyData_def findProperty_def)
  with getFaces_falls_back [where m = ?m]
  show "getFaces ?m = Inl MissingField"
    by blast
  from none getFaces_falls_back [where m = ?m]
  show "getFaces ?m = getFacesAsSpecified ?m"
    by auto
qed

lemma concat_triples_Nil:
  "concat (map (\<lambda>i. [f i, g i, h i]) [0 ..< n]) = [] \<longleftrightarrow> n = 0"
  using concat_triples_length [of f g h n] by (cases n) auto

lemma load_listColours:
  "load integersOnly listColours newPlyData =
     (True,
      \<lparr>header = \<lparr>type = ''binary_little_endian'', version = ''1.0'', comments = [],
                  objInfoComments = []\<rparr>,
       elements =
         [\<lparr>name = ''vertex'', count = Some 1,
            properties = [TypedListProperty ''red'' PT_uchar 1 [JInt 255] [Some 0, Some 1],
                          TypedListProperty ''green'' PT_uchar 1 [JInt 0] [Some 0, Some 1],
                          TypedListProperty ''blue'' PT_uchar 1 [JInt 0] [Some 0, Some 1]]\<rparr>]\<rparr>)"
  unfolding listColours_def by code_simp

text \<open>
  C8, as the specification states it, fails. The file \<open>listColours\<close> declares \<open>red\<close>,
  \<open>green\<close> and \<open>blue\<close> as list properties of its vertex element, so the loaded model
  has no scalar property of these names. \<open>load\<close> returns true, and \<open>getVertexColors()\<close>
  raises nothing: the three properties are found by their names, the values of a list
  property are taken as the empty sequence, the three lengths agree, and the call
  returns the empty sequence.
\<close>

theorem getVertexColors_empty_counterexample:
  "load integersOnly listColours newPlyData =
     (True,
      \<lparr>header = \<lparr>type = ''binary_little_endian'', version = ''1.0'', comments = [],
                  objInfoComments = []\<rparr>,
       elements =
         [\<lparr>name = ''vertex'', count = Some 1,
            properties = [TypedListProperty ''red'' PT_uchar 1 [JInt 255] [Some 0, Some 1],
                          TypedListProperty ''green'' PT_uchar 1 [JInt 0] [Some 0, Some 1],
                          TypedListProperty ''blue'' PT_uchar 1 [JInt 0] [Some 0, Some 1]]\<rparr>]\<rparr>)
   \<and> getVertexColors (snd (load integersOnly listColours newPlyData)) ''vertex'' = Inr []"
proof -
  have "getVertexColors (snd (load integersOnly listColours newPlyData)) ''vertex'' = Inr []"
    unfolding load_listColours snd_conv by code_simp
  with load_listColours show ?thesis by simp
qed

text \<open>
  C8, amended. \<open>getVertexColors(elementName)\<close> looks up the first element of that name
  and its first properties named \<open>red\<close>, \<open>green\<close> and \<open>blue\<close>, by name alone. On every
  model it fails with \<open>MissingField\<close> exactly when the element or one of the three
  names is absent; then it returns no sequence, empty or filled. The values of a list
  property are taken as the empty sequence, so the call returns the empty sequence
  exactly when the three properties are present and none holds a value that is read:
  list properties, or scalar properties without instances. When the three are present
  it fails with \<open>InconsistentData\<close> if the lengths differ, and otherwise returns
  \<open>[r0, g0, b0, r1, g1, b1, ...]\<close>, the values read and no default.
\<close>

theorem getVertexColors_by_name:
  fixes m :: "'f PlyData" and en :: string
  defines "vertex \<equiv> find (\<lambda>e. name e = en) (elements m)"
  defines "pr \<equiv> findProperty vertex ''red''"
  defines "pg \<equiv> findProperty vertex ''green''"
  defines "pb \<equiv> findProperty vertex ''blue''"
  shows
    "(getVertexColors m en = Inl MissingField \<longleftrightarrow> pr = None \<or> pg = None \<or> pb = None)
     \<and> (vertex = None \<longrightarrow> pr = None)
     \<and> (\<forall>n t k fd fis. getValues (TypedListProperty n t k fd fis :: 'f Property) = [])
     \<and> (\<forall>n t vs. getValues (TypedProperty n t vs :: 'f Property) = vs)
     \<and> (getVertexColors m en = Inr [] \<longleftrightarrow>
          (\<exists>r g b. pr = Some r \<and> pg = Some g \<and> pb = Some b
             \<and> getValues r = [] \<and> getValues g = [] \<and> getValues b = []))
     \<and> (\<forall>r g b. pr = Some r \<and> pg = Some g \<and> pb = Some b
          \<and> (length (getValues r) \<noteq> length (getValues g)
               \<or> length (getValues r) \<noteq> length (getValues b))
        \<longrightarrow> getVertexColors m en = Inl InconsistentData)
     \<and> (\<forall>r g b. pr = Some r \<and> pg = Some g \<and> pb = Some b
          \<and> length (getValues r) = length (getValues g)
          \<and> length (getValues r) = length (getValues b)
        \<longrightarrow> (\<exists>s. getVertexColors m en = Inr s
                 \<and> length s = 3 * length (getValues r)
                 \<and> (\<forall>i < length (getValues r).
                       s ! (3 * i) = getValues r ! i
                     \<and> s ! (3 * i + 1) = getValues g ! i
                     \<and> s ! (3 * i + 2) = getValues b ! i)))"
proof -
  let ?triples = "\<lambda>r g b. concat (map (\<lambda>i. [getValues r ! i, getValues g ! i, getValues b ! i])
                                    [0 ..< length (getValues r)])"
  have none: "getVertexColors m en = Inl MissingField"
    if "pr = None \<or> pg = None \<or> pb = None"
    using that unfolding getVertexColors_def getVertexValues_def Let_def
    by (auto simp: vertex_def pr_def pg_def pb_def)
  have some: "getVertexColors m en =
      (if length (getValues r) \<noteq> length (getValues g)
          \<or> length (getValues r) \<noteq> length (getValues b)
       then Inl InconsistentData else Inr (?triples r g b))"
    if "pr = Some r" "pg = Some g" "pb = Some b" for r g b
    using that unfolding getVertexColors_def getVertexValues_def Let_def
    by (simp add: vertex_def pr_def pg_def pb_def)
  have c1: "getVertexColors m en = Inl MissingField \<longleftrightarrow> pr = None \<or> pg = None \<or> pb = None"
  proof (cases "pr = None \<or> pg = None \<or> pb = None")
    case True
    with none show ?thesis by simp
  next
    case False
    then obtain r g b where "pr = Some r" "pg = Some g" "pb = Some b" by auto
    with some [OF this] show ?thesis by simp
  qed
  have c2: "vertex = None \<longrightarrow> pr = None"
    by (simp add: pr_def findProperty_def)
  have c5: "getVertexColors m en = Inr [] \<longleftrightarrow>
      (\<exists>r g b. pr = Some r \<and> pg = Some g \<and> pb = Some b
         \<and> getValues r = [] \<and> getValues g = [] \<and> getValues b = [])"
  proof (cases "pr = None \<or> pg = None \<or> pb = None")
    case True
    with none show ?thesis by auto
  next
    case False
    then obtain r g b where f: "pr = Some r" "pg = Some g" "pb = Some b" by auto
    have "?triples r g b = [] \<longleftrightarrow> length (getValues r) = 0"
      by (rule concat_triples_Nil)
    with some [OF f] f show ?thesis by auto
  qed
  have c6: "getVertexColors m en = Inl InconsistentData"
    if "pr = Some r \<and> pg = Some g \<and> pb = Some b
        \<and> (length (getValues r) \<noteq> length (getValues g)
             \<or> length (getValues r) \<noteq> length (getValues b))" for r g b
    using that some [of r g b] by auto
  have c7: "\<exists>s. getVertexColors m en = Inr s
        \<and> length s = 3 * length (getValues r)
        \<and> (\<forall>i < length (getValues r).
              s ! (3 * i) = getValues r ! i
            \<and> s ! (3 * i + 1) = getValues g ! i
            \<and> s ! (3 * i + 2) = getValues b ! i)"
    if "pr = Some r \<and> pg = Some g \<and> pb = Some b
        \<and> length (getValues r) = length (getValues g)
        \<and> length (getValues r) = length (getValues b)" for r g b
    using that some [of r g b]
    by (simp add: concat_triples_length concat_triples_nth)
  from c1 c2 c5 c6 c7 show ?thesis
    by (intro conjI allI impI) simp_all
qed

text \<open>The theorem at two loaded models: the mesh, whose vertex element has \<open>x\<close>, \<open>y\<close>
  and \<open>z\<close> only (\<open>MissingField\<close>), and the vertex with three list properties (the empty
  sequence).\<close>

theorem getVertexColors_by_name_witness:
  "findProperty (find (\<lambda>e. name e = ''vertex'')
       (elements (snd (load integersOnly meshAscii newPlyData)))) ''red'' = None
   \<and> fst (load integersOnly meshAscii newPlyData)
   \<and> getVertexColors (snd (load integersOnly meshAscii newPlyData)) ''vertex''
       = Inl MissingField
   \<and> fst (load integersOnly listColours newPlyData)
   \<and> getVertexColors (snd (load integersOnly listColours newPlyData)) ''vertex'' = Inr []"
proof -
  let ?m = "snd (load integersOnly meshAscii newPlyData)"
  have red: "findProperty (find (\<lambda>e. name e = ''vertex'') (elements ?m)) ''red'' = None"
    by (simp add: load_meshAscii findProperty_def)
  from getVertexColors_by_name [where m = ?m and en = "''vertex''"] red
  have a: "getVertexColors ?m ''vertex'' = Inl MissingField"
    by blast
  let ?c = "snd (load integersOnly listColours newPlyData)"
  let ?r = "TypedListProperty ''red'' PT_uchar 1 [JInt 255] [Some 0, Some 1] :: unit Property"
  let ?g = "TypedListProperty ''green'' PT_uchar 1 [JInt 0] [Some 0, Some 1] :: unit Property"
  let ?b = "TypedListProperty ''blue'' PT_uchar 1 [JInt 0] [Some 0, Some 1] :: unit Property"
  have found:
    "findProperty (find (\<lambda>e. name e = ''vertex'') (elements ?c)) ''red'' = Some ?r
     \<and> findProperty (find (\<lambda>e. name e = ''vertex'') (elements ?c)) ''green'' = Some ?g
     \<and> findProperty (find (\<lambda>e. name e = ''vertex'') (elements ?c)) ''blue'' = Some ?b
     \<and> getValues ?r = [] \<and> getValues ?g = [] \<and> getValues ?b = []"
    by (simp add: load_listColours findProperty_def)
  from getVertexColors_by_name [where m = ?c and en = "''vertex''"] found
  have b: "getVertexColors ?c ''vertex'' = Inr []"
    by blast
  from a b red show ?thesis
    by (simp add: load_meshAscii load_listColours)
qed

subsection \<open>The binary decoders\<close>

text \<open>
  C1, at an input. The header declares two instances of a scalar property \<open>x\<close> and of
  a list property \<open>l\<close>, and the body holds both instances. After the big-endian
  decoding \<open>x\<close> holds one value and \<open>l\<close> one slice: \<open>_parseBinaryBigEndian\<close> decodes the
  properties of an element once, whatever its count. The little-endian decoding of the
  same bytes (single-byte values, so the byte-swapped buffer is the buffer) holds two
  of each.
\<close>

theorem bigEndian_decodes_one_instance:
  "load integersOnly (binaryHeader ''binary_big_endian'' @ binaryBody) newPlyData =
     (True,
      \<lparr>header = \<lparr>type = ''binary_big_endian'', version = ''1.0'', comments = [],
                  objInfoComments = []\<rparr>,
       elements =
         [\<lparr>name = ''vertex'', count = Some 2,
            properties = [TypedProperty ''x'' PT_uchar [JInt 1],
                          TypedListProperty ''l'' PT_uchar 1 [JInt 9] [Some 0, Some 1]]\<rparr>]\<rparr>)
   \<and> load integersOnly (binaryHeader ''binary_little_endian'' @ binaryBody) newPlyData =
     (True,
      \<lparr>header = \<lparr>type = ''binary_little_endian'', version = ''1.0'', comments = [],
                  objInfoComments = []\<rparr>,
       elements =
         [\<lparr>name = ''vertex'', count = Some 2,
            properties = [TypedProperty ''x'' PT_uchar [JInt 1, JInt 2],
                          TypedListProperty ''l'' PT_uchar 1 [JInt 9, JInt 8]
                            [Some 0, Some 1, Some 2]]\<rparr>]\<rparr>)"
  unfolding binaryHeader_def binaryBody_def by code_simp

text \<open>
  C3, at two inputs with a truncated binary body. The header declares two instances of
  a one-byte property. With one byte of body, the big-endian \<open>load\<close> returns true (it
  reads one instance), where the little-endian \<open>load\<close> of the same body returns false.
  With no body at all, the little-endian \<open>load\<close> returns true: \<open>splitByEndHeader\<close>
  slices the body from \<open>headerLength - data.length\<close>, which is 0 here, so the body is
  the whole file and the two values are the bytes of \<open>pl\<close>.
\<close>

theorem load_true_on_truncated_body:
  "load integersOnly (scalarHeader ''binary_big_endian'' @ [CHR 0x07]) newPlyData =
     (True,
      \<lparr>header = \<lparr>type = ''binary_big_endian'', version = ''1.0'', comments = [],
                  objInfoComments = []\<rparr>,
       elements = [\<lparr>name = ''vertex'', count = Some 2,
                     properties = [TypedProperty ''x'' PT_uchar [JInt 7]]\<rparr>]\<rparr>)
   \<and> fst (load integersOnly (scalarHeader ''binary_little_endian'' @ [CHR 0x07]) newPlyData)
       = False
   \<and> load integersOnly (scalarHeader ''binary_little_endian'') newPlyData =
     (True,
      \<lparr>header = \<lparr>type = ''binary_little_endian'', version = ''1.0'', comments = [],
                  objInfoComments = []\<rparr>,
       elements = [\<lparr>name = ''vertex'', count = Some 2,
                     properties = [TypedProperty ''x'' PT_uchar [JInt 112, JInt 108]]\<rparr>]\<rparr>)"
  unfolding scalarHeader_def by code_simp

subsection \<open>The header parser\<close>

text \<open>For an element whose count is \<open>NaN\<close>, zero or negative, the instance loops of
  \<open>_parseAscii\<close> and \<open>_parseBinary\<close> run no round: the properties are returned as they
  were, no line and no byte is consumed, and the decoder goes on to the next
  element.\<close>

lemma no_instance_without_positive_count:
  fixes e :: "'f Element"
  assumes "count e = None \<or> (\<exists>c. count e = Some c \<and> c \<le> 0)"
  shows "parseAsciiInstances js (loopCount (count e)) (properties e) lines
           = (properties e, Some lines)"
    and "readInstances js buffer (loopCount (count e)) (properties e) offset
           = (properties e, Some offset)"
    and "parseAsciiElements js (e # es) lines
           = (case parseAsciiElements js es lines of (es', r) \<Rightarrow> (e # es', r))"
    and "parseBinaryElements js buffer (e # es) offset
           = (case parseBinaryElements js buffer es offset of (es', r) \<Rightarrow> (e # es', r))"
proof -
  from assms have zero: "loopCount (count e) = 0"
    by auto
  show "parseAsciiInstances js (loopCount (count e)) (properties e) lines
      = (properties e, Some lines)"
    by (simp add: zero)
  show "readInstances js buffer (loopCount (count e)) (properties e) offset
      = (properties e, Some offset)"
    by (simp add: zero)
  show "parseAsciiElements js (e # es) lines
      = (case parseAsciiElements js es lines of (es', r) \<Rightarrow> (e # es', r))"
    by (simp add: zero split: prod.splits)
  show "parseBinaryElements js buffer (e # es) offset
      = (case parseBinaryElements js buffer es offset of (es', r) \<Rightarrow> (e # es', r))"
    by (simp add: zero split: prod.splits)
qed

lemma load_oddElementCounts:
  "load integersOnly oddElementCounts newPlyData =
     (True,
      \<lparr>header = \<lparr>type = ''ascii'', version = ''1.0'', comments = [], objInfoComments = []\<rparr>,
       elements =
         [\<lparr>name = ''vertex'', count = Some (- 3),
            properties = [TypedProperty ''x'' PT_int []]\<rparr>,
          \<lparr>name = ''face'', count = None,
            properties = [TypedListProperty ''vertex_indices'' PT_int 1 [] [Some 0]]\<rparr>]\<rparr>)"
  unfolding oddElementCounts_def by code_simp

text \<open>
  C10, at inputs. The header declares one element \<open>vertex\<close> with a one-byte property
  \<open>x\<close>, and the body is the byte 7. The count token is \<open>0\<close>, \<open>-3\<close> or \<open>many\<close>: the
  header parser accepts each and stores what \<open>parseInt\<close> returns, 0, -3 or \<open>NaN\<close>. The
  little-endian decoder then reads no instance, as the claim says: \<open>x\<close> stays empty.
  The big-endian decoder reads one instance for each of the three counts, \<open>x = [7]\<close>:
  \<open>_parseBinaryBigEndian\<close> has no loop over the count, so it does not iterate zero
  instances for an element whose count is not a positive number.
\<close>

theorem bigEndian_reads_instance_without_positive_count:
  "load integersOnly (countHeader ''binary_big_endian'' ''0'' @ [CHR 0x07]) newPlyData =
     (True,
      \<lparr>header = \<lparr>type = ''binary_big_endian'', version = ''1.0'', comments = [],
                  objInfoComments = []\<rparr>,
       elements = [\<lparr>name = ''vertex'', count = Some 0,
                     properties = [TypedProperty ''x'' PT_uchar [JInt 7]]\<rparr>]\<rparr>)
   \<and> load integersOnly (countHeader ''binary_big_endian'' ''-3'' @ [CHR 0x07]) newPlyData =
     (True,
      \<lparr>header = \<lparr>type = ''binary_big_endian'', version = ''1.0'', comments = [],
                  objInfoComments = []\<rparr>,
       elements = [\<lparr>name = ''vertex'', count = Some (- 3),
                     properties = [TypedProperty ''x'' PT_uchar [JInt 7]]\<rparr>]\<rparr>)
   \<and> load integersOnly (countHeader ''binary_big_endian'' ''many'' @ [CHR 0x07]) newPlyData =
     (True,
      \<lparr>header = \<lparr>type = ''binary_big_endian'', version = ''1.0'', comments = [],
                  objInfoComments = []\<rparr>,
       elements = [\<lparr>name = ''vertex'', count = None,
                     properties = [TypedProperty ''x'' PT_uchar [JInt 7]]\<rparr>]\<rparr>)
   \<and> load integersOnly (countHeader ''binary_little_endian'' ''0'' @ [CHR 0x07]) newPlyData =
     (True,
      \<lparr>header = \<lparr>type = ''binary_little_endian'', version = ''1.0'', comments = [],
                  objInfoComments = []\<rparr>,
       elements = [\<lparr>name = ''vertex'', count = Some 0,
                     properties = [TypedProperty ''x'' PT_uchar []]\<rparr>]\<rparr>)
   \<and> load integersOnly (countHeader ''binary_little_endian'' ''-3'' @ [CHR 0x07]) newPlyData =
     (True,
      \<lparr>header = \<lparr>type = ''binary_little_endian'', version = ''1.0'', comments = [],
                  objInfoComments = []\<rparr>,
       elements = [\<lparr>name = ''vertex'', count = Some (- 3),
                     properties = [TypedProperty ''x'' PT_uchar []]\<rparr>]\<rparr>)
   \<and> load integersOnly (countHeader ''binary_little_endian'' ''many'' @ [CHR 0x07]) newPlyData =
     (True,
      \<lparr>header = \<lparr>type = ''binary_little_endian'', version = ''1.0'', comments = [],
                  objInfoComments = []\<rparr>,
       elements = [\<lparr>name = ''vertex'', count = None,
                     properties = [TypedProperty ''x'' PT_uchar []]\<rparr>]\<rparr>)"
  unfolding countHeader_def by code_simp

subsection \<open>Splitting the file\<close>

lemma split_not_Nil [simp]: "split sep s \<noteq> []"
  by (induction s) (auto split: list.splits)

lemma split_append_sep:
  "sep c \<Longrightarrow> split sep (a @ c # b) = split sep a @ split sep b"
proof (induction a)
  case Nil
  then show ?case by simp
next
  case (Cons x a)
  then show ?case
    by (cases "split sep a") simp_all
qed


lemma findEndHeader_Some:
  "findEndHeader s k = Some i \<Longrightarrow>
     k \<le> i \<and> take (length endHeaderTarget) (drop (i - k) s) = endHeaderTarget"
proof (induction s arbitrary: k)
  case Nil
  then show ?case by simp
next
  case (Cons c cs)
  show ?case
  proof (cases "take (length endHeaderTarget) (c # cs) = endHeaderTarget")
    case True
    with Cons.prems show ?thesis by simp
  next
    case False
    with Cons.prems have rec: "findEndHeader cs (k + 1) = Some i" by simp
    from Cons.IH [OF rec] have "k + 1 \<le> i"
      and "take (length endHeaderTarget) (drop (i - (k + 1)) cs) = endHeaderTarget"
      by simp_all
    moreover from \<open>k + 1 \<le> i\<close> have "i - k = Suc (i - (k + 1))" by simp
    ultimately show ?thesis by simp
  qed
qed

text \<open>The header part ends with the marker and is a prefix of the file.\<close>

lemma splitByEndHeader_Some:
  assumes "splitByEndHeader data = Some (headerPart, bodyPart)"
  shows "\<exists>p q. headerPart = p @ ''end_header'' @ [CHR 0x0A] \<and> data = headerPart @ q"
proof -
  from assms obtain i where i: "findEndHeader data 0 = Some i"
    and h: "headerPart = take (i + length endHeaderTarget) data"
    by (auto simp: splitByEndHeader_def Let_def split: option.splits)
  from findEndHeader_Some [OF i]
  have t: "take (length endHeaderTarget) (drop i data) = endHeaderTarget" by simp
  have "take (i + length endHeaderTarget) data
      = take i data @ take (length endHeaderTarget) (drop i data)"
    by (simp add: take_add)
  with t h have "headerPart = take i data @ ''end_header'' @ [CHR 0x0A]"
    by (simp add: endHeaderTarget_def)
  moreover from h have "data = headerPart @ drop (i + length endHeaderTarget) data"
    by simp
  ultimately show ?thesis by blast
qed

text \<open>The lines of the header part are the first lines of the file, and an empty
  line.\<close>

lemma header_lines:
  assumes "splitByEndHeader data = Some (headerPart, bodyPart)"
  shows "\<exists>front q. split newline headerPart = front @ [[]]
           \<and> split newline data = front @ split newline q \<and> front \<noteq> []"
proof -
  from splitByEndHeader_Some [OF assms] obtain p q
    where h: "headerPart = (p @ ''end_header'') @ CHR 0x0A # []"
      and d: "data = (p @ ''end_header'') @ CHR 0x0A # q"
    by auto
  have nl: "newline (CHR 0x0A)" by (simp add: newline_def)
  note sp = split_append_sep [where sep = newline and c = "CHR 0x0A", OF nl]
  have "split newline headerPart = split newline (p @ ''end_header'') @ [[]]"
    unfolding h by (subst sp) simp
  moreover have "split newline data = split newline (p @ ''end_header'') @ split newline q"
    unfolding d by (rule sp)
  ultimately show ?thesis
    using split_not_Nil by blast
qed

subsection \<open>The format line\<close>

lemma parseHeaderLine_header:
  "parseHeaderLine line m = Continue m' \<Longrightarrow>
     type (header m') = type (header m) \<and> version (header m') = version (header m)"
  by (auto simp: parseHeaderLine_def Let_def split: if_splits option.splits)

lemma parseHeaderLines_header:
  "parseHeaderLines lines m = (b, m') \<Longrightarrow>
     type (header m') = type (header m) \<and> version (header m') = version (header m)"
proof (induction lines arbitrary: m)
  case Nil
  then show ?case by simp
next
  case (Cons line lines)
  show ?case
  proof (cases "parseHeaderLine line m")
    case (Continue m1)
    with Cons.prems have "parseHeaderLines lines m1 = (b, m')" by simp
    from Cons.IH [OF this] parseHeaderLine_header [OF Continue] show ?thesis by simp
  next
    case Break
    with Cons.prems show ?thesis by simp
  next
    case ReturnFalse
    with Cons.prems show ?thesis by simp
  qed
qed

text \<open>What a header that parses has on its second line.\<close>

lemma parseHeader_True:
  assumes "parseHeader lines m = (True, m')"
  shows "\<exists>line0 line1 rest. lines = line0 # line1 # rest
           \<and> length (split DELIMITER line1) = 3
           \<and> type (header m') = split DELIMITER line1 ! 1
           \<and> version (header m') = split DELIMITER line1 ! 2
           \<and> split DELIMITER line1 ! 2 = ''1.0''"
proof (cases lines)
  case Nil
  with assms show ?thesis by (simp add: parseHeader_def)
next
  case (Cons line0 rest0)
  show ?thesis
  proof (cases rest0)
    case Nil
    with Cons assms show ?thesis by (simp add: parseHeader_def split: if_splits)
  next
    case (Cons line1 rest1)
    let ?tokens = "split DELIMITER line1"
    let ?m1 = "m\<lparr>header := (header m)\<lparr>type := ?tokens ! 1, version := ?tokens ! 2\<rparr>\<rparr>"
    from assms \<open>lines = line0 # rest0\<close> Cons
    have len: "length ?tokens = 3" and v: "?tokens ! 2 = ''1.0''"
      and rec: "parseHeaderLines rest1 ?m1 = (True, m')"
      by (auto simp: parseHeader_def Let_def split: if_splits)
    from parseHeaderLines_header [OF rec]
    have "type (header m') = ?tokens ! 1" "version (header m') = ?tokens ! 2"
      by simp_all
    with len v \<open>lines = line0 # rest0\<close> Cons show ?thesis by simp
  qed
qed

lemma parseAscii_header: "parseAscii js lines m = (b, m') \<Longrightarrow> header m' = header m"
  by (auto simp: parseAscii_def split: prod.splits)

lemma parseBinary_header: "parseBinary js buffer m = (b, m') \<Longrightarrow> header m' = header m"
  by (auto simp: parseBinary_def split: prod.splits)

lemma parseBinaryBigEndian_header:
  "parseBinaryBigEndian js buffer m = (b, m') \<Longrightarrow> header m' = header m"
  by (auto simp: parseBinaryBigEndian_def split: prod.splits)

text \<open>A load that returns true has parsed a header, and has stored a format that one
  of the three decoders takes.\<close>

lemma load_True:
  assumes "load js buf m = (True, m')"
  shows "\<exists>headerPart bodyPart m1.
           splitByEndHeader buf = Some (headerPart, bodyPart)
           \<and> parseHeader (split newline headerPart) m = (True, m1)
           \<and> header m' = header m1
           \<and> type (header m1) \<in> {''ascii'', ''binary_little_endian'', ''binary_big_endian''}"
proof -
  from assms obtain headerPart bodyPart
    where s: "splitByEndHeader buf = Some (headerPart, bodyPart)"
    by (auto simp: load_def split: option.splits)
  obtain b m1 where p: "parseHeader (split newline headerPart) m = (b, m1)"
    by (cases "parseHeader (split newline headerPart) m")
  with assms s have b: "b = True"
    by (cases b) (simp_all add: load_def)
  from assms s p b
  have t: "type (header m1) \<in> {''ascii'', ''binary_little_endian'', ''binary_big_endian''}"
    by (auto simp: load_def split: if_splits)
  from assms s p b have "header m' = header m1"
    by (auto simp: load_def split: if_splits
        dest: parseAscii_header parseBinary_header parseBinaryBigEndian_header)
  with s p b t show ?thesis by blast
qed

text \<open>
  C7. Let the second line of the file (the format line) split into tokens. If its
  second token, the format, is none of \<open>ascii\<close>, \<open>binary_little_endian\<close>,
  \<open>binary_big_endian\<close>, or its third token, the version, is not \<open>1.0\<close>, then \<open>load\<close>
  returns false, on any \<open>PlyData\<close> object.
\<close>

theorem load_rejects_format_and_version:
  assumes "split newline buf = line0 # line1 # rest"
    and "tokens = split DELIMITER line1"
    and "(1 < length tokens
            \<and> tokens ! 1 \<notin> {''ascii'', ''binary_little_endian'', ''binary_big_endian''})
         \<or> (2 < length tokens \<and> tokens ! 2 \<noteq> ''1.0'')"
  shows "fst (load js buf m) = False"
proof (rule ccontr)
  assume "fst (load js buf m) \<noteq> False"
  then obtain m' where l: "load js buf m = (True, m')"
    by (cases "load js buf m") auto
  from load_True [OF l] obtain headerPart bodyPart m1
    where s: "splitByEndHeader buf = Some (headerPart, bodyPart)"
      and p: "parseHeader (split newline headerPart) m = (True, m1)"
      and t: "type (header m1) \<in> {''ascii'', ''binary_little_endian'', ''binary_big_endian''}"
    by blast
  from parseHeader_True [OF p] obtain h0 h1 hrest
    where hl: "split newline headerPart = h0 # h1 # hrest"
      and len: "length (split DELIMITER h1) = 3"
      and ty: "type (header m1) = split DELIMITER h1 ! 1"
      and v: "split DELIMITER h1 ! 2 = ''1.0''"
    by blast
  from header_lines [OF s] obtain front q
    where f: "split newline headerPart = front @ [[]]"
      and d: "split newline buf = front @ split newline q"
    by blast
  have "h1 = line1"
  proof (cases front)
    case Nil
    with f hl show ?thesis by simp
  next
    case (Cons f0 front')
    show ?thesis
    proof (cases front')
      case Nil
      with Cons f hl have "h1 = []" by simp
      with len show ?thesis by simp
    next
      case (Cons f1 front'')
      with \<open>front = f0 # front'\<close> f hl d assms(1) show ?thesis by simp
    qed
  qed
  with len ty v t assms(2,3) show False by auto
qed

text \<open>The theorem at the format line \<open>format xml 1.0\<close> and at the version \<open>2.0\<close>.\<close>

theorem load_rejects_format_and_version_witness:
  "fst (load integersOnly
      ''ply\<newline>format xml 1.0\<newline>element vertex 0\<newline>end_header\<newline>''
      newPlyData) = False
   \<and> fst (load integersOnly
      ''ply\<newline>format ascii 2.0\<newline>element vertex 0\<newline>end_header\<newline>''
      newPlyData) = False"
proof
  let ?buf = "''ply\<newline>format xml 1.0\<newline>element vertex 0\<newline>end_header\<newline>''"
  have l: "split newline ?buf = ''ply'' # ''format xml 1.0'' # [''element vertex 0'', ''end_header'', []]"
    by code_simp
  have t: "split DELIMITER ''format xml 1.0'' = [''format'', ''xml'', ''1.0'']"
    by code_simp
  have "(1 < length [''format'', ''xml'', ''1.0'']
            \<and> [''format'', ''xml'', ''1.0''] ! 1
                 \<notin> {''ascii'', ''binary_little_endian'', ''binary_big_endian''})
         \<or> (2 < length [''format'', ''xml'', ''1.0'']
            \<and> [''format'', ''xml'', ''1.0''] ! 2 \<noteq> ''1.0'')"
    by simp
  from load_rejects_format_and_version [OF l t [symmetric] this]
  show "fst (load integersOnly ?buf newPlyData) = False" .
next
  let ?buf = "''ply\<newline>format ascii 2.0\<newline>element vertex 0\<newline>end_header\<newline>''"
  have l: "split newline ?buf = ''ply'' # ''format ascii 2.0'' # [''element vertex 0'', ''end_header'', []]"
    by code_simp
  have t: "split DELIMITER ''format ascii 2.0'' = [''format'', ''ascii'', ''2.0'']"
    by code_simp
  have "(1 < length [''format'', ''ascii'', ''2.0'']
            \<and> [''format'', ''ascii'', ''2.0''] ! 1
                 \<notin> {''ascii'', ''binary_little_endian'', ''binary_big_endian''})
         \<or> (2 < length [''format'', ''ascii'', ''2.0'']
            \<and> [''format'', ''ascii'', ''2.0''] ! 2 \<noteq> ''1.0'')"
    by simp
  from load_rejects_format_and_version [OF l t [symmetric] this]
  show "fst (load integersOnly ?buf newPlyData) = False" .
qed

subsection \<open>What a load keeps\<close>

lemma map_name_pushProperty:
  "es \<noteq> [] \<Longrightarrow> map name (pushProperty p es) = map name es"
proof -
  assume "es \<noteq> []"
  then have "map name es = map name (butlast es @ [last es])" by simp
  then show ?thesis by (simp add: pushProperty_def)
qed

lemma parseHeaderLine_keeps:
  assumes "parseHeaderLine line m = Continue m'"
  shows "\<exists>cs os ns. comments (header m') = comments (header m) @ cs
           \<and> objInfoComments (header m') = objInfoComments (header m) @ os
           \<and> map name (elements m') = map name (elements m) @ ns"
  using assms
  by (auto simp: parseHeaderLine_def Let_def map_name_pushProperty
      split: if_splits option.splits)

lemma parseHeaderLines_keeps:
  "parseHeaderLines lines m = (b, m') \<Longrightarrow>
     \<exists>cs os ns. comments (header m') = comments (header m) @ cs
       \<and> objInfoComments (header m') = objInfoComments (header m) @ os
       \<and> map name (elements m') = map name (elements m) @ ns"
proof (induction lines arbitrary: m)
  case Nil
  then show ?case by simp
next
  case (Cons line lines)
  show ?case
  proof (cases "parseHeaderLine line m")
    case (Continue m1)
    with Cons.prems have "parseHeaderLines lines m1 = (b, m')" by simp
    from Cons.IH [OF this] obtain cs os ns
      where "comments (header m') = comments (header m1) @ cs"
        "objInfoComments (header m') = objInfoComments (header m1) @ os"
        "map name (elements m') = map name (elements m1) @ ns"
      by blast
    moreover from parseHeaderLine_keeps [OF Continue] obtain cs1 os1 ns1
      where "comments (header m1) = comments (header m) @ cs1"
        "objInfoComments (header m1) = objInfoComments (header m) @ os1"
        "map name (elements m1) = map name (elements m) @ ns1"
      by blast
    ultimately show ?thesis by simp
  next
    case Break
    with Cons.prems show ?thesis by simp
  next
    case ReturnFalse
    with Cons.prems show ?thesis by simp
  qed
qed

lemma parseHeader_keeps:
  assumes "parseHeader lines m = (b, m')"
  shows "\<exists>cs os ns. comments (header m') = comments (header m) @ cs
           \<and> objInfoComments (header m') = objInfoComments (header m) @ os
           \<and> map name (elements m') = map name (elements m) @ ns"
proof (cases lines)
  case Nil
  with assms show ?thesis by (simp add: parseHeader_def)
next
  case (Cons line0 rest0)
  show ?thesis
  proof (cases rest0)
    case Nil
    with Cons assms show ?thesis by (auto simp: parseHeader_def split: if_splits)
  next
    case (Cons line1 rest1)
    let ?tokens = "split DELIMITER line1"
    let ?m1 = "m\<lparr>header := (header m)\<lparr>type := ?tokens ! 1, version := ?tokens ! 2\<rparr>\<rparr>"
    from assms \<open>lines = line0 # rest0\<close> Cons
    consider "m' = m" | "m' = ?m1" | "parseHeaderLines rest1 ?m1 = (b, m')"
      by (auto simp: parseHeader_def Let_def split: if_splits)
    then show ?thesis
    proof cases
      case 1
      then show ?thesis by simp
    next
      case 2
      then show ?thesis by simp
    next
      case 3
      from parseHeaderLines_keeps [OF 3] show ?thesis by simp
    qed
  qed
qed

text \<open>The decoders push values and nothing else: every element keeps its name, its
  count and the declarations of its properties, also when the decoder throws.\<close>

lemma declared_parseNext: "declared (fst (parseNext js p tokens i)) = declared p"
  by (cases p) (simp_all add: Let_def)

lemma declared_parseLine:
  "map declared (parseLine js tokens ps i) = map declared ps"
proof (induction ps arbitrary: i)
  case Nil
  then show ?case by simp
next
  case (Cons p ps)
  obtain p' i' where n: "parseNext js p tokens i = (p', i')"
    by (cases "parseNext js p tokens i")
  with declared_parseNext [of js p tokens i] have "declared p' = declared p" by simp
  with n Cons.IH show ?case by simp
qed

lemma declared_parseAsciiInstances:
  "parseAsciiInstances js c ps lines = (ps', r) \<Longrightarrow> map declared ps' = map declared ps"
proof (induction c arbitrary: ps lines)
  case 0
  then show ?case by simp
next
  case (Suc c)
  let ?ls = "if ps = [] then dropWhile (\<lambda>line. line = []) lines else lines"
  show ?case
  proof (cases ?ls)
    case Nil
    with Suc.prems show ?thesis by simp
  next
    case (Cons line rest)
    with Suc.prems
    have "parseAsciiInstances js c (parseLine js (split DELIMITER line) ps 0) rest = (ps', r)"
      by simp
    from Suc.IH [OF this] show ?thesis by (simp add: declared_parseLine)
  qed
qed

lemma declared_parseAsciiElements:
  "parseAsciiElements js es lines = (es', r) \<Longrightarrow>
     map declaredElement es' = map declaredElement es"
proof (induction es arbitrary: lines es' r)
  case Nil
  then show ?case by simp
next
  case (Cons e es)
  obtain ps r1 where i: "parseAsciiInstances js (loopCount (count e)) (properties e) lines = (ps, r1)"
    by (cases "parseAsciiInstances js (loopCount (count e)) (properties e) lines")
  from declared_parseAsciiInstances [OF i]
  have e: "declaredElement (e\<lparr>properties := ps\<rparr>) = declaredElement e"
    by (simp add: declaredElement_def)
  show ?case
  proof (cases r1)
    case None
    with Cons.prems i e show ?thesis by auto
  next
    case (Some rest)
    obtain es1 r2 where rec: "parseAsciiElements js es rest = (es1, r2)"
      by (cases "parseAsciiElements js es rest")
    from Cons.IH [OF rec] Cons.prems i Some rec e show ?thesis by auto
  qed
qed

lemma declared_readNextWith:
  "declared (fst (readNextWith le js p buffer offset)) = declared p"
  by (cases p) (auto simp: Let_def split: option.splits prod.splits)

lemma declared_readProperties:
  "readProperties le js buffer ps offset = (ps', r) \<Longrightarrow> map declared ps' = map declared ps"
proof (induction ps arbitrary: offset ps' r)
  case Nil
  then show ?case by simp
next
  case (Cons p ps)
  obtain p' r1 where n: "readNextWith le js p buffer offset = (p', r1)"
    by (cases "readNextWith le js p buffer offset")
  with declared_readNextWith [of le js p buffer offset] have p: "declared p' = declared p"
    by simp
  show ?case
  proof (cases r1)
    case None
    with Cons.prems n p show ?thesis by auto
  next
    case (Some offset')
    obtain ps1 r2 where rec: "readProperties le js buffer ps offset' = (ps1, r2)"
      by (cases "readProperties le js buffer ps offset'")
    from Cons.IH [OF rec] Cons.prems n Some rec p show ?thesis by auto
  qed
qed

lemma declared_readInstances:
  "readInstances js buffer c ps offset = (ps', r) \<Longrightarrow> map declared ps' = map declared ps"
proof (induction c arbitrary: ps offset)
  case 0
  then show ?case by simp
next
  case (Suc c)
  obtain ps1 r1 where p: "readProperties True js buffer ps offset = (ps1, r1)"
    by (cases "readProperties True js buffer ps offset")
  show ?case
  proof (cases r1)
    case None
    with Suc.prems p declared_readProperties [OF p] show ?thesis by simp
  next
    case (Some offset')
    with Suc.prems p have "readInstances js buffer c ps1 offset' = (ps', r)" by simp
    from Suc.IH [OF this] declared_readProperties [OF p] show ?thesis by simp
  qed
qed

lemma declared_parseBinaryElements:
  "parseBinaryElements js buffer es offset = (es', r) \<Longrightarrow>
     map declaredElement es' = map declaredElement es"
proof (induction es arbitrary: offset es' r)
  case Nil
  then show ?case by simp
next
  case (Cons e es)
  obtain ps r1 where i: "readInstances js buffer (loopCount (count e)) (properties e) offset = (ps, r1)"
    by (cases "readInstances js buffer (loopCount (count e)) (properties e) offset")
  from declared_readInstances [OF i]
  have e: "declaredElement (e\<lparr>properties := ps\<rparr>) = declaredElement e"
    by (simp add: declaredElement_def)
  show ?case
  proof (cases r1)
    case None
    with Cons.prems i e show ?thesis by auto
  next
    case (Some offset')
    obtain es1 r2 where rec: "parseBinaryElements js buffer es offset' = (es1, r2)"
      by (cases "parseBinaryElements js buffer es offset'")
    from Cons.IH [OF rec] Cons.prems i Some rec e show ?thesis by auto
  qed
qed

lemma declared_parseBinaryBigEndianElements:
  "parseBinaryBigEndianElements js buffer es offset = (es', r) \<Longrightarrow>
     map declaredElement es' = map declaredElement es"
proof (induction es arbitrary: offset es' r)
  case Nil
  then show ?case by simp
next
  case (Cons e es)
  obtain ps r1 where i: "readProperties False js buffer (properties e) offset = (ps, r1)"
    by (cases "readProperties False js buffer (properties e) offset")
  from declared_readProperties [OF i]
  have e: "declaredElement (e\<lparr>properties := ps\<rparr>) = declaredElement e"
    by (simp add: declaredElement_def)
  show ?case
  proof (cases r1)
    case None
    with Cons.prems i e show ?thesis by auto
  next
    case (Some offset')
    obtain es1 r2 where rec: "parseBinaryBigEndianElements js buffer es offset' = (es1, r2)"
      by (cases "parseBinaryBigEndianElements js buffer es offset'")
    from Cons.IH [OF rec] Cons.prems i Some rec e show ?thesis by auto
  qed
qed

text \<open>After the header, \<open>load\<close> changes the values of the properties only.\<close>

lemma load_after_header:
  assumes "splitByEndHeader buf = Some (headerPart, bodyPart)"
    and "parseHeader (split newline headerPart) m = (b, m1)"
    and "load js buf m = (ok, m')"
  shows "header m' = header m1
         \<and> map declaredElement (elements m') = map declaredElement (elements m1)"
proof (cases b)
  case False
  with assms show ?thesis by (simp add: load_def)
next
  case True
  with assms
  consider "parseAscii js (split newline bodyPart) m1 = (ok, m')"
    | "parseBinary js bodyPart m1 = (ok, m')"
    | "parseBinaryBigEndian js bodyPart m1 = (ok, m')"
    | "m' = m1"
    by (auto simp: load_def split: if_splits)
  then show ?thesis
  proof cases
    case 1
    then show ?thesis
      by (auto simp: parseAscii_def split: prod.splits dest: declared_parseAsciiElements)
  next
    case 2
    then show ?thesis
      by (auto simp: parseBinary_def split: prod.splits dest: declared_parseBinaryElements)
  next
    case 3
    then show ?thesis
      by (auto simp: parseBinaryBigEndian_def split: prod.splits
          dest: declared_parseBinaryBigEndianElements)
  next
    case 4
    then show ?thesis by simp
  qed
qed

lemma pushProperty_append:
  "es \<noteq> [] \<Longrightarrow> pushProperty p (xs @ es) = xs @ pushProperty p es"
  by (simp add: pushProperty_def butlast_append)

text \<open>A round of the header loop that goes on, or leaves the loop, on a new object
  does the same on a model that holds earlier data, and pushes after that data.\<close>

lemma parseHeaderLine_appendedTo:
  "parseHeaderLine line parsed = Continue parsed' \<Longrightarrow>
     parseHeaderLine line (appendedTo m parsed) = Continue (appendedTo m parsed')"
  "parseHeaderLine line parsed = Break \<Longrightarrow> parseHeaderLine line (appendedTo m parsed) = Break"
  by (auto simp: parseHeaderLine_def Let_def appendedTo_def pushProperty_append
      split: if_splits option.splits)

lemma parseHeaderLines_appendedTo:
  "parseHeaderLines lines parsed = (True, parsed') \<Longrightarrow>
     parseHeaderLines lines (appendedTo m parsed) = (True, appendedTo m parsed')"
proof (induction lines arbitrary: parsed)
  case Nil
  then show ?case by simp
next
  case (Cons line lines)
  show ?case
  proof (cases "parseHeaderLine line parsed")
    case (Continue p1)
    with Cons.prems have "parseHeaderLines lines p1 = (True, parsed')" by simp
    from Cons.IH [OF this] parseHeaderLine_appendedTo(1) [OF Continue, of m]
    show ?thesis by simp
  next
    case Break
    with Cons.prems parseHeaderLine_appendedTo(2) [OF Break, of m] show ?thesis by simp
  next
    case ReturnFalse
    with Cons.prems show ?thesis by simp
  qed
qed

lemma parseHeader_appendedTo:
  fixes m parsed :: "'f PlyData"
  assumes "parseHeader lines newPlyData = (True, parsed)"
  shows "parseHeader lines m = (True, appendedTo m parsed)"
proof (cases lines)
  case Nil
  with assms show ?thesis by (simp add: parseHeader_def)
next
  case (Cons line0 rest0)
  show ?thesis
  proof (cases rest0)
    case Nil
    with Cons assms show ?thesis by (simp add: parseHeader_def split: if_splits)
  next
    case (Cons line1 rest1)
    let ?tokens = "split DELIMITER line1"
    let ?n1 = "(newPlyData :: 'f PlyData)\<lparr>header := (header (newPlyData :: 'f PlyData))
                \<lparr>type := ?tokens ! 1, version := ?tokens ! 2\<rparr>\<rparr>"
    let ?m1 = "m\<lparr>header := (header m)\<lparr>type := ?tokens ! 1, version := ?tokens ! 2\<rparr>\<rparr>"
    from assms \<open>lines = line0 # rest0\<close> Cons
    have checks: "trim line0 = ''ply''" "length ?tokens = 3" "?tokens ! 0 = ''format''"
        "?tokens ! 2 = ''1.0''"
      and rec: "parseHeaderLines rest1 ?n1 = (True, parsed)"
      by (auto simp: parseHeader_def Let_def split: if_splits)
    have "?m1 = appendedTo m ?n1"
      by (simp add: appendedTo_def newPlyData_def)
    with parseHeaderLines_appendedTo [OF rec, of m]
    have "parseHeaderLines rest1 ?m1 = (True, appendedTo m parsed)" by simp
    with checks \<open>lines = line0 # rest0\<close> Cons show ?thesis
      by (simp add: parseHeader_def Let_def)
  qed
qed

lemma load_vertexFile1:
  "load integersOnly vertexFile1 newPlyData =
     (True,
      \<lparr>header = \<lparr>type = ''ascii'', version = ''1.0'', comments = [''first file''],
                  objInfoComments = [''one'']\<rparr>,
       elements =
         [\<lparr>name = ''vertex'', count = Some 1,
            properties = [TypedProperty ''x'' PT_int [JInt 1],
                          TypedProperty ''y'' PT_int [JInt 2],
                          TypedProperty ''z'' PT_int [JInt 3]]\<rparr>]\<rparr>)"
  unfolding vertexFile1_def by code_simp

lemma load_vertexFile2_after_vertexFile1:
  "load integersOnly vertexFile2
     \<lparr>header = \<lparr>type = ''ascii'', version = ''1.0'', comments = [''first file''],
                 objInfoComments = [''one'']\<rparr>,
      elements =
        [\<lparr>name = ''vertex'', count = Some 1,
           properties = [TypedProperty ''x'' PT_int [JInt 1],
                         TypedProperty ''y'' PT_int [JInt 2],
                         TypedProperty ''z'' PT_int [JInt 3]]\<rparr>]\<rparr> =
     (True,
      \<lparr>header = \<lparr>type = ''ascii'', version = ''1.0'',
                  comments = [''first file'', ''second file''],
                  objInfoComments = [''one'', ''two'']\<rparr>,
       elements =
         [\<lparr>name = ''vertex'', count = Some 1,
            properties = [TypedProperty ''x'' PT_int [JInt 1, JInt 7],
                          TypedProperty ''y'' PT_int [JInt 2, JInt 8],
                          TypedProperty ''z'' PT_int [JInt 3, JInt 9]]\<rparr>,
          \<lparr>name = ''vertex'', count = Some 1,
            properties = [TypedProperty ''x'' PT_int [JNaN],
                          TypedProperty ''y'' PT_int [JNaN],
                          TypedProperty ''z'' PT_int [JNaN]]\<rparr>]\<rparr>)"
  unfolding vertexFile2_def by code_simp

lemma header_vertexFile2:
  "splitByEndHeader vertexFile2 =
     Some (''ply\<newline>format ascii 1.0\<newline>comment second file\<newline>obj_info two\<newline>element vertex 1\<newline>property int x\<newline>property int y\<newline>property int z\<newline>end_header\<newline>'',
           ''7 8 9\<newline>'')"
  "parseHeader (split newline ''ply\<newline>format ascii 1.0\<newline>comment second file\<newline>obj_info two\<newline>element vertex 1\<newline>property int x\<newline>property int y\<newline>property int z\<newline>end_header\<newline>'')
     (newPlyData :: unit PlyData) =
     (True,
      \<lparr>header = \<lparr>type = ''ascii'', version = ''1.0'', comments = [''second file''],
                  objInfoComments = [''two'']\<rparr>,
       elements =
         [\<lparr>name = ''vertex'', count = Some 1,
            properties = [TypedProperty ''x'' PT_int [], TypedProperty ''y'' PT_int [],
                          TypedProperty ''z'' PT_int []]\<rparr>]\<rparr>)"
  unfolding vertexFile2_def by code_simp+

text \<open>
  C9. \<open>load\<close> never resets the object it is called on: whatever it returns, the
  comments, the \<open>obj_info\<close> comments and the names of the elements that the object held
  are still there, in front. When the header of the file parses on a new object, a
  \<open>load\<close> on an object that holds earlier data leaves, in this order, the earlier
  comments and the file's, the earlier \<open>obj_info\<close> comments and the file's, the earlier
  elements and the file's (names, counts and property declarations; the decoder then
  pushes values on all of them).
\<close>

theorem second_load_appends:
  fixes m :: "'f PlyData"
  shows
    "(load js buf m = (ok, m')
        \<longrightarrow> (\<exists>cs os ns. comments (header m') = comments (header m) @ cs
               \<and> objInfoComments (header m') = objInfoComments (header m) @ os
               \<and> map name (elements m') = map name (elements m) @ ns))
     \<and> (splitByEndHeader buf = Some (headerPart, bodyPart)
          \<and> parseHeader (split newline headerPart) newPlyData = (True, parsed)
          \<and> load js buf m = (ok, m')
        \<longrightarrow> header m' = header (appendedTo m parsed)
            \<and> map declaredElement (elements m')
                = map declaredElement (elements m) @ map declaredElement (elements parsed))"
proof (rule conjI; rule impI)
  assume l: "load js buf m = (ok, m')"
  show "\<exists>cs os ns. comments (header m') = comments (header m) @ cs
               \<and> objInfoComments (header m') = objInfoComments (header m) @ os
               \<and> map name (elements m') = map name (elements m) @ ns"
  proof (cases "splitByEndHeader buf")
    case None
    with l show ?thesis by (simp add: load_def)
  next
    case (Some hb)
    obtain h b where hb: "hb = (h, b)" by (cases hb)
    obtain b1 m1 where p: "parseHeader (split newline h) m = (b1, m1)"
      by (cases "parseHeader (split newline h) m")
    from load_after_header [OF Some [unfolded hb] p l]
    have hd: "header m' = header m1"
      and "map declaredElement (elements m') = map declaredElement (elements m1)"
      by simp_all
    then have "map name (map declaredElement (elements m'))
        = map name (map declaredElement (elements m1))"
      by simp
    then have "map name (elements m') = map name (elements m1)"
      by (simp add: declaredElement_def comp_def)
    with hd parseHeader_keeps [OF p] show ?thesis by simp
  qed
next
  assume a: "splitByEndHeader buf = Some (headerPart, bodyPart)
          \<and> parseHeader (split newline headerPart) newPlyData = (True, parsed)
          \<and> load js buf m = (ok, m')"
  then have p: "parseHeader (split newline headerPart) m = (True, appendedTo m parsed)"
    using parseHeader_appendedTo by blast
  from a load_after_header [OF _ p, of buf bodyPart js ok m']
  show "header m' = header (appendedTo m parsed)
      \<and> map declaredElement (elements m')
          = map declaredElement (elements m) @ map declaredElement (elements parsed)"
    by (simp add: appendedTo_def)
qed

text \<open>The theorem at two files of one vertex each, loaded one after the other on the
  same object: both loads return true, the comments and the elements of both files
  are there, and \<open>getVertexPositions\<close> returns the vertex of the first file followed
  by the vertex of the second.\<close>

theorem second_load_appends_witness:
  "fst (load integersOnly vertexFile1 newPlyData)
   \<and> fst (load integersOnly vertexFile2 (snd (load integersOnly vertexFile1 newPlyData)))
   \<and> comments (header (snd (load integersOnly vertexFile2
         (snd (load integersOnly vertexFile1 newPlyData)))))
       = [''first file'', ''second file'']
   \<and> objInfoComments (header (snd (load integersOnly vertexFile2
         (snd (load integersOnly vertexFile1 newPlyData)))))
       = [''one'', ''two'']
   \<and> map name (elements (snd (load integersOnly vertexFile2
         (snd (load integersOnly vertexFile1 newPlyData)))))
       = [''vertex'', ''vertex'']
   \<and> getVertexPositions (snd (load integersOnly vertexFile2
         (snd (load integersOnly vertexFile1 newPlyData)))) ''vertex''
       = Inr [JInt 1, JInt 2, JInt 3, JInt 7, JInt 8, JInt 9]"
proof -
  let ?m1 = "snd (load integersOnly vertexFile1 newPlyData)"
  let ?m2 = "snd (load integersOnly vertexFile2 ?m1)"
  let ?parsed = "\<lparr>header = \<lparr>type = ''ascii'', version = ''1.0'', comments = [''second file''],
                  objInfoComments = [''two'']\<rparr>,
       elements =
         [\<lparr>name = ''vertex'', count = Some 1,
            properties = [TypedProperty ''x'' PT_int [], TypedProperty ''y'' PT_int [],
                          TypedProperty ''z'' PT_int []]\<rparr>]\<rparr> :: unit PlyData"
  have l: "load integersOnly vertexFile2 ?m1 = (fst (load integersOnly vertexFile2 ?m1), ?m2)"
    by simp
  from second_load_appends [where m = ?m1 and parsed = ?parsed and js = integersOnly,
      THEN conjunct2, rule_format, OF conjI [OF header_vertexFile2(1)
        conjI [OF header_vertexFile2(2) l]]]
  have h: "header ?m2 = header (appendedTo ?m1 ?parsed)"
    and e: "map declaredElement (elements ?m2)
        = map declaredElement (elements ?m1) @ map declaredElement (elements ?parsed)"
    by simp_all
  from h have "comments (header ?m2) = [''first file'', ''second file'']"
    and "objInfoComments (header ?m2) = [''one'', ''two'']"
    by (simp_all add: appendedTo_def load_vertexFile1)
  moreover from e have "map name (map declaredElement (elements ?m2)) = [''vertex'', ''vertex'']"
    by (simp add: load_vertexFile1 declaredElement_def)
  then have "map name (elements ?m2) = [''vertex'', ''vertex'']"
    by (simp add: declaredElement_def comp_def)
  moreover have "fst (load integersOnly vertexFile1 newPlyData)"
    by (simp add: load_vertexFile1)
  moreover have "fst (load integersOnly vertexFile2 ?m1)"
    by (simp add: load_vertexFile1 load_vertexFile2_after_vertexFile1)
  moreover have "getVertexPositions ?m2 ''vertex''
      = Inr [JInt 1, JInt 2, JInt 3, JInt 7, JInt 8, JInt 9]"
    unfolding load_vertexFile1 snd_conv load_vertexFile2_after_vertexFile1
    by code_simp
  ultimately show ?thesis by blast
qed

subsection \<open>The boundaries of a list property\<close>

lemma uintLE_nonneg: "0 \<le> uintLE bs"
  by (induction bs) (simp_all add: uintLE_def)

lemma readListCount_nonneg:
  "readListCount buffer k offset le = Some c \<Longrightarrow> 0 \<le> c"
  by (auto simp: readListCount_def readUint_def uintBE_def uintLE_nonneg split: if_splits)

lemma readListValues_length:
  "readListValues js buffer t le c offset fd = (fd', Some offset') \<Longrightarrow>
     length fd' = length fd + c"
proof (induction c arbitrary: offset fd)
  case 0
  then show ?case by simp
next
  case (Suc c)
  then show ?case
    by (cases "readValue js buffer t offset le") fastforce+
qed

lemma nonDecreasing_snoc:
  "nonDecreasing (fis @ [x]) \<longleftrightarrow> nonDecreasing fis \<and> (fis = [] \<or> numLe (last fis) x)"
  by (induction fis rule: nonDecreasing.induct) auto

lemma take1_length: "take (Suc 0) fis = [a] \<Longrightarrow> Suc 0 \<le> length fis"
  by (cases fis) simp_all

text \<open>One successful \<open>readNext\<close> or \<open>readNextBigEndian\<close>.\<close>

lemma readNextWith_step:
  assumes "readNextWith le js p buffer offset = (p', Some offset')"
  shows "(instancesHeld n p \<longrightarrow> instancesHeld (Suc n) p')
         \<and> (startsAtZero p \<longrightarrow> startsAtZero p')
         \<and> (boundariesOrdered p \<longrightarrow> boundariesOrdered p')"
proof (cases p)
  case (TypedProperty pn t vs)
  with assms show ?thesis by (auto split: option.splits)
next
  case (TypedListProperty pn t k fd fis)
  from assms TypedListProperty obtain c fd'
    where c: "readListCount buffer k offset le = Some c"
      and v: "readListValues js buffer t le (nat c) (offset + nat k) fd = (fd', Some offset')"
      and p': "p' = TypedListProperty pn t k fd' (fis @ [Some (int (length fd) + c)])"
    by (auto simp: Let_def split: option.splits prod.splits)
  from readListCount_nonneg [OF c] readListValues_length [OF v]
  have "int (length fd') = int (length fd) + c" by simp
  with TypedListProperty p' readListCount_nonneg [OF c] show ?thesis
    by (auto simp: nonDecreasing_snoc take1_length)
qed

text \<open>One \<open>parseNext\<close>; the order of the boundaries is kept when the count token
  parses to an integer that is not negative.\<close>

lemma parseNext_step:
  "(instancesHeld n p \<longrightarrow> instancesHeld (Suc n) (fst (parseNext js p tokens i)))
   \<and> (startsAtZero p \<longrightarrow> startsAtZero (fst (parseNext js p tokens i)))"
  by (cases p) (auto simp: Let_def take1_length)

lemma parseNext_ordered:
  assumes "boundariesOrdered p" and "parseInt (tokenAt tokens i) = Some c" and "0 \<le> c"
  shows "boundariesOrdered (fst (parseNext js p tokens i))"
  using assms by (cases p) (auto simp: Let_def nonDecreasing_snoc)

text \<open>A property of the properties that every successful read advances by one
  instance is advanced by the loops over the properties, the instances and the
  elements.\<close>

lemma readProperties_lift:
  assumes step: "\<And>p p' offset offset'.
      readNextWith le js p buffer offset = (p', Some offset') \<Longrightarrow> P n p \<Longrightarrow> P (Suc n) p'"
  shows "readProperties le js buffer ps offset = (ps', Some offset') \<Longrightarrow>
           list_all (P n) ps \<Longrightarrow> list_all (P (Suc n)) ps'"
proof (induction ps arbitrary: offset ps')
  case Nil
  then show ?case by simp
next
  case (Cons p ps)
  from Cons.prems(1) obtain p' o1 ps1
    where n: "readNextWith le js p buffer offset = (p', Some o1)"
      and r: "readProperties le js buffer ps o1 = (ps1, Some offset')"
      and e: "ps' = p' # ps1"
    by (auto split: prod.splits option.splits)
  from Cons.IH [OF r] Cons.prems(2) step [OF n] e show ?case by simp
qed

lemma readInstances_lift:
  assumes step: "\<And>n p p' offset offset'.
      readNextWith True js p buffer offset = (p', Some offset') \<Longrightarrow> P n p \<Longrightarrow> P (Suc n) p'"
  shows "readInstances js buffer c ps offset = (ps', Some offset') \<Longrightarrow>
           list_all (P n) ps \<Longrightarrow> list_all (P (n + c)) ps'"
proof (induction c arbitrary: ps offset n)
  case 0
  then show ?case by simp
next
  case (Suc c)
  from Suc.prems(1) obtain ps1 o1
    where r: "readProperties True js buffer ps offset = (ps1, Some o1)"
      and i: "readInstances js buffer c ps1 o1 = (ps', Some offset')"
    by (auto split: prod.splits option.splits)
  from readProperties_lift [of True js buffer P n, OF step r Suc.prems(2)]
  have "list_all (P (Suc n)) ps1" .
  from Suc.IH [OF i this] show ?case by simp
qed

lemma parseBinaryElements_lift:
  assumes step: "\<And>n p p' offset offset'.
      readNextWith True js p buffer offset = (p', Some offset') \<Longrightarrow> P n p \<Longrightarrow> P (Suc n) p'"
  shows "parseBinaryElements js buffer es offset = (es', Some offset') \<Longrightarrow>
           \<forall>e \<in> set es. list_all (P 0) (properties e) \<Longrightarrow>
           \<forall>e \<in> set es'. list_all (P (loopCount (count e))) (properties e)"
proof (induction es arbitrary: offset es')
  case Nil
  then show ?case by simp
next
  case (Cons e es)
  from Cons.prems(1) obtain ps o1 es1
    where i: "readInstances js buffer (loopCount (count e)) (properties e) offset = (ps, Some o1)"
      and r: "parseBinaryElements js buffer es o1 = (es1, Some offset')"
      and e': "es' = e\<lparr>properties := ps\<rparr> # es1"
    by (auto split: prod.splits option.splits)
  from Cons.prems(2) have "list_all (P 0) (properties e)" by simp
  from readInstances_lift [of js buffer P, OF step i this]
  have "list_all (P (loopCount (count e))) ps" by simp
  with Cons.IH [OF r] Cons.prems(2) e' show ?case by simp
qed

lemma parseBinaryBigEndianElements_lift:
  assumes step: "\<And>p p' offset offset'.
      readNextWith False js p buffer offset = (p', Some offset') \<Longrightarrow> P p \<Longrightarrow> P p'"
  shows "parseBinaryBigEndianElements js buffer es offset = (es', Some offset') \<Longrightarrow>
           \<forall>e \<in> set es. list_all P (properties e) \<Longrightarrow>
           \<forall>e \<in> set es'. list_all P (properties e)"
proof (induction es arbitrary: offset es')
  case Nil
  then show ?case by simp
next
  case (Cons e es)
  from Cons.prems(1) obtain ps o1 es1
    where i: "readProperties False js buffer (properties e) offset = (ps, Some o1)"
      and r: "parseBinaryBigEndianElements js buffer es o1 = (es1, Some offset')"
      and e': "es' = e\<lparr>properties := ps\<rparr> # es1"
    by (auto split: prod.splits option.splits)
  from Cons.prems(2) have "list_all P (properties e)" by simp
  from readProperties_lift [of False js buffer "\<lambda>n. P" 0, OF step i this]
  have "list_all P ps" .
  with Cons.IH [OF r] Cons.prems(2) e' show ?case by simp
qed

lemma parseLine_lift:
  assumes step: "\<And>p tokens i. P n p \<Longrightarrow> P (Suc n) (fst (parseNext js p tokens i))"
  shows "list_all (P n) ps \<Longrightarrow> list_all (P (Suc n)) (parseLine js tokens ps i)"
proof (induction ps arbitrary: i)
  case Nil
  then show ?case by simp
next
  case (Cons p ps)
  obtain p' i' where n: "parseNext js p tokens i = (p', i')"
    by (cases "parseNext js p tokens i")
  from Cons.prems step [of p tokens i] n have "P (Suc n) p'" by simp
  with Cons.IH [of i'] Cons.prems n show ?case by simp
qed

lemma parseAsciiInstances_lift:
  assumes step: "\<And>n p tokens i. P n p \<Longrightarrow> P (Suc n) (fst (parseNext js p tokens i))"
  shows "parseAsciiInstances js c ps lines = (ps', Some rest) \<Longrightarrow>
           list_all (P n) ps \<Longrightarrow> list_all (P (n + c)) ps'"
proof (induction c arbitrary: ps lines n)
  case 0
  then show ?case by simp
next
  case (Suc c)
  let ?ls = "if ps = [] then dropWhile (\<lambda>line. line = []) lines else lines"
  show ?case
  proof (cases ?ls)
    case Nil
    with Suc.prems(1) show ?thesis by simp
  next
    case (Cons line rest1)
    with Suc.prems(1)
    have i: "parseAsciiInstances js c (parseLine js (split DELIMITER line) ps 0) rest1
        = (ps', Some rest)"
      by simp
    from parseLine_lift [of P n js, OF step Suc.prems(2)]
    have "list_all (P (Suc n)) (parseLine js (split DELIMITER line) ps 0)" .
    from Suc.IH [OF i this] show ?thesis by simp
  qed
qed

lemma parseAsciiElements_lift:
  assumes step: "\<And>n p tokens i. P n p \<Longrightarrow> P (Suc n) (fst (parseNext js p tokens i))"
  shows "parseAsciiElements js es lines = (es', Some rest) \<Longrightarrow>
           \<forall>e \<in> set es. list_all (P 0) (properties e) \<Longrightarrow>
           \<forall>e \<in> set es'. list_all (P (loopCount (count e))) (properties e)"
proof (induction es arbitrary: lines es')
  case Nil
  then show ?case by simp
next
  case (Cons e es)
  from Cons.prems(1) obtain ps l1 es1
    where i: "parseAsciiInstances js (loopCount (count e)) (properties e) lines = (ps, Some l1)"
      and r: "parseAsciiElements js es l1 = (es1, Some rest)"
      and e': "es' = e\<lparr>properties := ps\<rparr> # es1"
    by (auto split: prod.splits option.splits)
  from Cons.prems(2) have "list_all (P 0) (properties e)" by simp
  from parseAsciiInstances_lift [of P js, OF step i this]
  have "list_all (P (loopCount (count e))) ps" by simp
  with Cons.IH [OF r] Cons.prems(2) e' show ?case by simp
qed

text \<open>The header parser pushes properties that hold no value.\<close>

lemma createPropertyWithType_declared:
  "createPropertyWithType n typeStr isList listCountTypeStr = Some p \<Longrightarrow> declared p = p"
  by (auto simp: createPropertyWithType_def newTypedProperty_def newTypedListProperty_def
      split: option.splits if_splits)

lemma pushProperty_declared:
  assumes "es \<noteq> []" and "declared p = p"
    and "\<forall>e \<in> set es. \<forall>q \<in> set (properties e). declared q = q"
  shows "\<forall>e \<in> set (pushProperty p es). \<forall>q \<in> set (properties e). declared q = q"
proof -
  from assms(1) have "last es \<in> set es" by simp
  with assms(2,3) show ?thesis
    by (auto simp: pushProperty_def dest: in_set_butlastD)
qed

lemma parseHeaderLine_Continue:
  assumes "parseHeaderLine line m = Continue m'"
  shows "elements m' = elements m
         \<or> (\<exists>n c. elements m' = elements m @ [\<lparr>name = n, count = c, properties = []\<rparr>])
         \<or> (\<exists>p. elements m \<noteq> [] \<and> declared p = p
                \<and> elements m' = pushProperty p (elements m))"
proof -
  let ?tokens = "split DELIMITER line"
  consider (blank) "line = []"
    | (comment) "line \<noteq> []" "startsWith line ''comment''"
    | (objInfo) "line \<noteq> []" "\<not> startsWith line ''comment''" "startsWith line ''obj_info''"
    | (element) "line \<noteq> []" "\<not> startsWith line ''comment''"
        "\<not> startsWith line ''obj_info''" "startsWith line ''element''"
    | (list) "line \<noteq> []" "\<not> startsWith line ''comment''"
        "\<not> startsWith line ''obj_info''" "\<not> startsWith line ''element''"
        "startsWith line ''property list''"
    | (scalar) "line \<noteq> []" "\<not> startsWith line ''comment''"
        "\<not> startsWith line ''obj_info''" "\<not> startsWith line ''element''"
        "\<not> startsWith line ''property list''" "startsWith line ''property''"
    | (other) "line \<noteq> []" "\<not> startsWith line ''comment''"
        "\<not> startsWith line ''obj_info''" "\<not> startsWith line ''element''"
        "\<not> startsWith line ''property list''" "\<not> startsWith line ''property''"
    by blast
  then show ?thesis
  proof cases
    case blank
    with assms show ?thesis by (simp add: parseHeaderLine_def)
  next
    case comment
    with assms show ?thesis by (auto simp: parseHeaderLine_def)
  next
    case objInfo
    with assms show ?thesis by (auto simp: parseHeaderLine_def)
  next
    case element
    with assms show ?thesis
      by (auto simp: parseHeaderLine_def Let_def split: if_splits)
  next
    case list
    with assms have "length ?tokens = 5" "elements m \<noteq> []"
      by (auto simp: parseHeaderLine_def Let_def split: if_splits)
    with assms list obtain p
      where "createPropertyWithType (?tokens ! 4) (?tokens ! 3) True (?tokens ! 2) = Some p"
        and "elements m' = pushProperty p (elements m)"
      by (auto simp: parseHeaderLine_def Let_def split: option.splits)
    with \<open>elements m \<noteq> []\<close> createPropertyWithType_declared show ?thesis by blast
  next
    case scalar
    with assms have "length ?tokens = 3" "elements m \<noteq> []"
      by (auto simp: parseHeaderLine_def Let_def split: if_splits)
    with assms scalar obtain p
      where "createPropertyWithType (?tokens ! 2) (?tokens ! 1) False [] = Some p"
        and "elements m' = pushProperty p (elements m)"
      by (auto simp: parseHeaderLine_def Let_def split: option.splits)
    with \<open>elements m \<noteq> []\<close> createPropertyWithType_declared show ?thesis by blast
  next
    case other
    with assms show ?thesis by (auto simp: parseHeaderLine_def split: if_splits)
  qed
qed

lemma parseHeaderLine_declared:
  assumes "parseHeaderLine line m = Continue m'"
    and "\<forall>e \<in> set (elements m). \<forall>q \<in> set (properties e). declared q = q"
  shows "\<forall>e \<in> set (elements m'). \<forall>q \<in> set (properties e). declared q = q"
proof -
  from parseHeaderLine_Continue [OF assms(1)]
  consider "elements m' = elements m"
    | n c where "elements m' = elements m @ [\<lparr>name = n, count = c, properties = []\<rparr>]"
    | p where "elements m \<noteq> []" "declared p = p" "elements m' = pushProperty p (elements m)"
    by blast
  then show ?thesis
  proof cases
    case 1
    with assms(2) show ?thesis by simp
  next
    case 2
    with assms(2) show ?thesis by auto
  next
    case 3
    with pushProperty_declared [OF 3(1,2) assms(2)] show ?thesis by simp
  qed
qed

lemma parseHeaderLines_declared:
  "parseHeaderLines lines m = (b, m') \<Longrightarrow>
     \<forall>e \<in> set (elements m). \<forall>q \<in> set (properties e). declared q = q \<Longrightarrow>
     \<forall>e \<in> set (elements m'). \<forall>q \<in> set (properties e). declared q = q"
proof (induction lines arbitrary: m)
  case Nil
  then show ?case by simp
next
  case (Cons line lines)
  show ?case
  proof (cases "parseHeaderLine line m")
    case (Continue m1)
    with Cons.prems(1) have r: "parseHeaderLines lines m1 = (b, m')" by simp
    from Cons.IH [OF r parseHeaderLine_declared [OF Continue Cons.prems(2)]]
    show ?thesis .
  next
    case Break
    with Cons.prems show ?thesis by simp
  next
    case ReturnFalse
    with Cons.prems show ?thesis by simp
  qed
qed

lemma parseHeader_declared:
  fixes m :: "'f PlyData"
  assumes "parseHeader lines newPlyData = (True, m)"
  shows "\<forall>e \<in> set (elements m). \<forall>q \<in> set (properties e). declared q = q"
proof (cases lines)
  case Nil
  with assms show ?thesis by (simp add: parseHeader_def)
next
  case (Cons line0 rest0)
  show ?thesis
  proof (cases rest0)
    case Nil
    with Cons assms show ?thesis by (simp add: parseHeader_def split: if_splits)
  next
    case (Cons line1 rest1)
    let ?tokens = "split DELIMITER line1"
    let ?n1 = "(newPlyData :: 'f PlyData)\<lparr>header := (header (newPlyData :: 'f PlyData))
                \<lparr>type := ?tokens ! 1, version := ?tokens ! 2\<rparr>\<rparr>"
    from assms \<open>lines = line0 # rest0\<close> Cons
    have rec: "parseHeaderLines rest1 ?n1 = (True, m)"
      by (auto simp: parseHeader_def Let_def split: if_splits)
    have "elements ?n1 = []" by (simp add: newPlyData_def)
    with parseHeaderLines_declared [OF rec] show ?thesis by simp
  qed
qed

lemma declared_fresh:
  "declared p = p \<Longrightarrow> instancesHeld 0 p \<and> startsAtZero p \<and> boundariesOrdered p"
  by (cases p) auto

text \<open>A load that returns true: the header parsed, and the decoder of the stored
  format returned.\<close>

lemma load_True_body:
  assumes "load js buf m0 = (True, m)"
  shows "\<exists>headerPart bodyPart m1 es.
           splitByEndHeader buf = Some (headerPart, bodyPart)
           \<and> parseHeader (split newline headerPart) m0 = (True, m1)
           \<and> m = m1\<lparr>elements := es\<rparr>
           \<and> (type (header m1) = ''ascii''
                \<and> (\<exists>rest. parseAsciiElements js (elements m1) (split newline bodyPart)
                            = (es, Some rest))
              \<or> type (header m1) = ''binary_little_endian''
                \<and> (\<exists>offset. parseBinaryElements js bodyPart (elements m1) 0 = (es, Some offset))
              \<or> type (header m1) = ''binary_big_endian''
                \<and> (\<exists>offset. parseBinaryBigEndianElements js bodyPart (elements m1) 0
                              = (es, Some offset)))"
proof -
  from load_True [OF assms] obtain headerPart bodyPart m1
    where s: "splitByEndHeader buf = Some (headerPart, bodyPart)"
      and p: "parseHeader (split newline headerPart) m0 = (True, m1)"
    by blast
  from assms s p
  consider "type (header m1) = ''ascii''" "parseAscii js (split newline bodyPart) m1 = (True, m)"
    | "type (header m1) = ''binary_little_endian''" "parseBinary js bodyPart m1 = (True, m)"
    | "type (header m1) = ''binary_big_endian''" "parseBinaryBigEndian js bodyPart m1 = (True, m)"
    by (auto simp: load_def split: if_splits)
  then show ?thesis
  proof cases
    case 1
    then obtain es rest
      where "parseAsciiElements js (elements m1) (split newline bodyPart) = (es, Some rest)"
        and "m = m1\<lparr>elements := es\<rparr>"
      by (auto simp: parseAscii_def split: prod.splits)
    with s p 1(1) show ?thesis by blast
  next
    case 2
    then obtain es offset
      where "parseBinaryElements js bodyPart (elements m1) 0 = (es, Some offset)"
        and "m = m1\<lparr>elements := es\<rparr>"
      by (auto simp: parseBinary_def split: prod.splits)
    with s p 2(1) show ?thesis by blast
  next
    case 3
    then obtain es offset
      where "parseBinaryBigEndianElements js bodyPart (elements m1) 0 = (es, Some offset)"
        and "m = m1\<lparr>elements := es\<rparr>"
      by (auto simp: parseBinaryBigEndian_def split: prod.splits)
    with s p 3(1) show ?thesis by blast
  qed
qed

text \<open>After a load on a new object that returns true, whatever the format: every
  property starts at zero; after an ASCII or a little-endian load it holds as many
  instances as the instance loop has rounds; after a binary load its boundaries are
  ordered.\<close>

lemma loaded_properties:
  assumes "load js buf newPlyData = (True, m)"
    and "e \<in> set (elements m)" and "p \<in> set (properties e)"
  shows "startsAtZero p"
    and "type (header m) = ''ascii'' \<or> type (header m) = ''binary_little_endian''
           \<Longrightarrow> instancesHeld (loopCount (count e)) p"
    and "type (header m) = ''binary_little_endian'' \<or> type (header m) = ''binary_big_endian''
           \<Longrightarrow> boundariesOrdered p"
proof -
  from load_True_body [OF assms(1)] obtain headerPart bodyPart m1 es
    where p: "parseHeader (split newline headerPart) newPlyData = (True, m1)"
      and m: "m = m1\<lparr>elements := es\<rparr>"
      and body: "type (header m1) = ''ascii''
                \<and> (\<exists>rest. parseAsciiElements js (elements m1) (split newline bodyPart)
                            = (es, Some rest))
              \<or> type (header m1) = ''binary_little_endian''
                \<and> (\<exists>offset. parseBinaryElements js bodyPart (elements m1) 0 = (es, Some offset))
              \<or> type (header m1) = ''binary_big_endian''
                \<and> (\<exists>offset. parseBinaryBigEndianElements js bodyPart (elements m1) 0
                              = (es, Some offset))"
    by blast
  from parseHeader_declared [OF p] declared_fresh
  have fresh: "\<forall>e \<in> set (elements m1). list_all (instancesHeld 0) (properties e)"
    "\<forall>e \<in> set (elements m1). list_all startsAtZero (properties e)"
    "\<forall>e \<in> set (elements m1). list_all boundariesOrdered (properties e)"
    by (auto simp: list_all_iff)
  from m assms(2) have e: "e \<in> set es" by simp
  from m have ty: "type (header m) = type (header m1)" by simp
  from body consider
      (ascii) rest where "type (header m1) = ''ascii''"
        "parseAsciiElements js (elements m1) (split newline bodyPart) = (es, Some rest)"
    | (le) offset where "type (header m1) = ''binary_little_endian''"
        "parseBinaryElements js bodyPart (elements m1) 0 = (es, Some offset)"
    | (be) offset where "type (header m1) = ''binary_big_endian''"
        "parseBinaryBigEndianElements js bodyPart (elements m1) 0 = (es, Some offset)"
    by blast
  then have "startsAtZero p
      \<and> (type (header m) = ''ascii'' \<or> type (header m) = ''binary_little_endian''
           \<longrightarrow> instancesHeld (loopCount (count e)) p)
      \<and> (type (header m) = ''binary_little_endian'' \<or> type (header m) = ''binary_big_endian''
           \<longrightarrow> boundariesOrdered p)"
  proof cases
    case ascii
    from parseAsciiElements_lift [of "\<lambda>n. startsAtZero" js, OF _ ascii(2) fresh(2)]
    have "list_all startsAtZero (properties e)"
      using e parseNext_step by blast
    moreover
    from parseAsciiElements_lift [of instancesHeld js, OF _ ascii(2) fresh(1)]
    have "list_all (instancesHeld (loopCount (count e))) (properties e)"
      using e parseNext_step by blast
    ultimately show ?thesis
      using assms(3) ty ascii(1) by (auto simp: list_all_iff)
  next
    case le
    from parseBinaryElements_lift [of js bodyPart "\<lambda>n. startsAtZero", OF _ le(2) fresh(2)]
    have "list_all startsAtZero (properties e)"
      using e readNextWith_step by blast
    moreover
    from parseBinaryElements_lift [of js bodyPart instancesHeld, OF _ le(2) fresh(1)]
    have "list_all (instancesHeld (loopCount (count e))) (properties e)"
      using e readNextWith_step by blast
    moreover
    from parseBinaryElements_lift [of js bodyPart "\<lambda>n. boundariesOrdered", OF _ le(2) fresh(3)]
    have "list_all boundariesOrdered (properties e)"
      using e readNextWith_step by blast
    ultimately show ?thesis
      using assms(3) by (auto simp: list_all_iff)
  next
    case be
    from parseBinaryBigEndianElements_lift [of js bodyPart startsAtZero, OF _ be(2) fresh(2)]
    have "list_all startsAtZero (properties e)"
      using e readNextWith_step by blast
    moreover
    from parseBinaryBigEndianElements_lift [of js bodyPart boundariesOrdered,
        OF _ be(2) fresh(3)]
    have "list_all boundariesOrdered (properties e)"
      using e readNextWith_step by blast
    ultimately show ?thesis
      using assms(3) ty be(1) by (auto simp: list_all_iff)
  qed
  then show "startsAtZero p"
    and "type (header m) = ''ascii'' \<or> type (header m) = ''binary_little_endian''
           \<Longrightarrow> instancesHeld (loopCount (count e)) p"
    and "type (header m) = ''binary_little_endian'' \<or> type (header m) = ''binary_big_endian''
           \<Longrightarrow> boundariesOrdered p"
    by blast+
qed

lemma load_negativeListCount:
  "load integersOnly negativeListCount newPlyData =
     (True,
      \<lparr>header = \<lparr>type = ''ascii'', version = ''1.0'', comments = [], objInfoComments = []\<rparr>,
       elements =
         [\<lparr>name = ''face'', count = Some 1,
            properties = [TypedListProperty ''vertex_indices'' PT_int 1 []
                            [Some 0, Some (- 1)]]\<rparr>]\<rparr>)"
  unfolding negativeListCount_def by code_simp

lemma load_binaryLittleEndian:
  "load integersOnly (binaryHeader ''binary_little_endian'' @ binaryBody) newPlyData =
     (True,
      \<lparr>header = \<lparr>type = ''binary_little_endian'', version = ''1.0'', comments = [],
                  objInfoComments = []\<rparr>,
       elements =
         [\<lparr>name = ''vertex'', count = Some 2,
            properties = [TypedProperty ''x'' PT_uchar [JInt 1, JInt 2],
                          TypedListProperty ''l'' PT_uchar 1 [JInt 9, JInt 8]
                            [Some 0, Some 1, Some 2]]\<rparr>]\<rparr>)"
  unfolding binaryHeader_def binaryBody_def by code_simp

text \<open>
  C2, as stated, at an ASCII input: the only line of the body is the list count \<open>-1\<close>.
  The load returns true, and \<open>flattenedIndexStart\<close> is \<open>[0, -1]\<close>, which decreases.
\<close>

theorem flattenedIndexStart_decreases_counterexample:
  "load integersOnly negativeListCount newPlyData =
     (True,
      \<lparr>header = \<lparr>type = ''ascii'', version = ''1.0'', comments = [], objInfoComments = []\<rparr>,
       elements =
         [\<lparr>name = ''face'', count = Some 1,
            properties = [TypedListProperty ''vertex_indices'' PT_int 1 []
                            [Some 0, Some (- 1)]]\<rparr>]\<rparr>)
   \<and> \<not> nonDecreasing [Some 0, Some (- 1)]"
  by (simp add: load_negativeListCount)

text \<open>
  C2, amended. Let \<open>load\<close> on a new object return true, and take a list property of an
  element of the model. Its \<open>flattenedIndexStart\<close> starts at 0, in each of the three
  formats. After an \<open>ascii\<close> or a \<open>binary_little_endian\<close> load it has \<open>n + 1\<close> entries,
  where \<open>n\<close> is the number of rounds of the instance loop: \<open>element.count\<close> when that is
  a positive integer, 0 when it is zero, negative or \<open>NaN\<close>. After a binary load, of
  either byte order, it does not decrease and ends at the length of \<open>flattenedData\<close>.
  In ASCII every instance appends the length of \<open>flattenedData\<close> plus the parsed count:
  a property whose boundaries are ordered keeps them ordered when the count token
  parses to an integer that is not negative. (The number of entries after a
  \<open>binary_big_endian\<close> load is not stated.)
\<close>

theorem flattenedIndexStart_after_load:
  assumes "load js buf newPlyData = (True, m)"
    and "e \<in> set (elements m)"
    and "TypedListProperty pn t k fd fis \<in> set (properties e)"
  shows "take 1 fis = [Some 0]
     \<and> (type (header m) = ''ascii'' \<or> type (header m) = ''binary_little_endian''
          \<longrightarrow> length fis = loopCount (count e) + 1)
     \<and> (type (header m) = ''binary_little_endian'' \<or> type (header m) = ''binary_big_endian''
          \<longrightarrow> nonDecreasing fis \<and> last fis = Some (int (length fd)))
     \<and> (\<forall>p tokens i c. boundariesOrdered p \<and> parseInt (tokenAt tokens i) = Some c \<and> 0 \<le> c
          \<longrightarrow> boundariesOrdered (fst (parseNext js p tokens i)))"
proof -
  note loaded = loaded_properties [OF assms]
  from loaded(1) have "take 1 fis = [Some 0]" by simp
  moreover from loaded(2)
  have "type (header m) = ''ascii'' \<or> type (header m) = ''binary_little_endian''
          \<longrightarrow> length fis = loopCount (count e) + 1"
    by auto
  moreover from loaded(3)
  have "type (header m) = ''binary_little_endian'' \<or> type (header m) = ''binary_big_endian''
          \<longrightarrow> nonDecreasing fis \<and> last fis = Some (int (length fd))"
    by auto
  moreover
  have "\<forall>p tokens i c. boundariesOrdered p \<and> parseInt (tokenAt tokens i) = Some c \<and> 0 \<le> c
          \<longrightarrow> boundariesOrdered (fst (parseNext js p tokens i))"
    using parseNext_ordered by blast
  ultimately show ?thesis by blast
qed

text \<open>The theorem at the ASCII mesh (one face, boundaries \<open>[0, 3]\<close>) and at the
  little-endian file of two instances (boundaries \<open>[0, 1, 2]\<close>).\<close>

theorem flattenedIndexStart_after_load_witness:
  "fst (load integersOnly meshAscii newPlyData)
   \<and> take 1 [Some 0, Some (3 :: int)] = [Some 0]
   \<and> length [Some 0, Some (3 :: int)] = loopCount (Some 1) + 1
   \<and> fst (load integersOnly (binaryHeader ''binary_little_endian'' @ binaryBody) newPlyData)
   \<and> length [Some 0, Some 1, Some (2 :: int)] = loopCount (Some 2) + 1
   \<and> nonDecreasing [Some 0, Some 1, Some 2]"
proof -
  let ?face = "\<lparr>name = ''face'', count = Some 1,
            properties = [TypedListProperty ''vertex_indices'' PT_int 1
                            [JInt 0, JInt 1, JInt 1] [Some 0, Some 3]]\<rparr> :: unit Element"
  from flattenedIndexStart_after_load [OF load_meshAscii, of ?face "''vertex_indices''"
      PT_int 1 "[JInt 0, JInt 1, JInt 1]" "[Some 0, Some 3]"]
  have a: "take 1 [Some 0, Some (3 :: int)] = [Some 0]
      \<and> length [Some 0, Some (3 :: int)] = loopCount (Some 1) + 1"
    by simp
  let ?vertex = "\<lparr>name = ''vertex'', count = Some 2,
            properties = [TypedProperty ''x'' PT_uchar [JInt 1, JInt 2],
                          TypedListProperty ''l'' PT_uchar 1 [JInt 9, JInt 8]
                            [Some 0, Some 1, Some 2]]\<rparr> :: unit Element"
  from flattenedIndexStart_after_load [OF load_binaryLittleEndian, of ?vertex "''l''"
      PT_uchar 1 "[JInt 9, JInt 8]" "[Some 0, Some 1, Some 2]"]
  have b: "length [Some 0, Some 1, Some (2 :: int)] = loopCount (Some 2) + 1
      \<and> nonDecreasing [Some 0, Some 1, Some 2]"
    by simp
  from a b show ?thesis
    by (simp add: load_meshAscii load_binaryLittleEndian)
qed

subsection \<open>Printing and parsing integers\<close>










subsection \<open>More on splitting\<close>









subsection \<open>Reading back the lines that save writes\<close>






















subsection \<open>Reading back the header that save writes\<close>



lemma upTo_0:
  assumes "consistentProperty c p"
  shows "upTo 0 p = (case p of TypedProperty n t vs \<Rightarrow> TypedProperty n t []
                     | TypedListProperty n t b fd fis \<Rightarrow> TypedListProperty n t 1 [] [Some 0])"
proof (cases p)
  case (TypedProperty n t vs)
  then show ?thesis by simp
next
  case (TypedListProperty n t b fd fis)
  with assms obtain rest where "fis = Some 0 # rest"
    by (cases fis) (simp_all add: consistentProperty_def)
  with TypedListProperty show ?thesis by simp
qed



lemma pushProperty_not_Nil: "pushProperty p es \<noteq> []"
  by (simp add: pushProperty_def)












subsection \<open>Finding the marker in the bytes that save writes\<close>











subsection \<open>Loading what save wrote\<close>




subsection \<open>The accessors on the model read back\<close>





subsection \<open>The header lines of a file whose header ends with the marker line\<close>




subsection \<open>The names and comments that the header parser stores\<close>











subsection \<open>The numbers that the ASCII parser stores\<close>






subsection \<open>The round trip through save\<close>






text \<open>An integer of magnitude \<open>10^21\<close> or more is not read back: the language prints
  \<open>10^21\<close> as \<open>1e+21\<close>, and \<open>parseInt\<close> reads 1 from that text. This is why the round
  trip is stated for integers that are printed in decimal digits.\<close>

lemma large_integer_not_read_back:
  "parseInt (intToString (integersOnly\<lparr>integerToString := (\<lambda>n. ''1e+21'')\<rparr>) (Some (10 ^ 21)))
   = Some 1"
  by code_simp



end
